theory Spec2Isabelle
  imports Complex_Main
begin

section \<open>Saving and loading models\<close>

subsection \<open>Tensors, layers and the network\<close>

text \<open>
  A tensor is its shape (\<^verbatim>\<open>torch.Size\<close>) and its elements in row-major order. The element
  type is left open: saving and loading move elements and never compute with them.
\<close>

datatype 'a tensor = Tensor (shape: "nat list") (data: "'a list")

text \<open>
  The keys of a state dict. The notebook prints them as
  \<^verbatim>\<open>hidden_layers.0.weight\<close>, \<^verbatim>\<open>hidden_layers.0.bias\<close>, ..., \<^verbatim>\<open>output.weight\<close>,
  \<^verbatim>\<open>output.bias\<close>; \<open>HiddenWeight k\<close> stands for \<^verbatim>\<open>hidden_layers.k.weight\<close>.
\<close>

datatype pname = HiddenWeight nat | HiddenBias nat | OutputWeight | OutputBias

text \<open>
  What \<^verbatim>\<open>load_state_dict\<close> reports. The traceback kept in the notebook shows the library
  collecting \<^verbatim>\<open>error_msgs\<close>, putting the missing keys in front, and raising one
  \<^verbatim>\<open>RuntimeError\<close> when the list is not empty.
\<close>

datatype load_msg =
    SizeMismatch pname "nat list" "nat list"
  | MissingKeys "pname list"
  | UnexpectedKeys "pname list"

datatype reason = LoadingStateDict "load_msg list" | TopkOutOfRange | ViewSize | MatmulShape

datatype error = IndexError | KeyError | FileNotFoundError | NameError | RuntimeError reason

text \<open>\<^verbatim>\<open>nn.Linear(in_features, out_features)\<close>: a weight of shape \<open>[out, in]\<close> and a bias of
  shape \<open>[out]\<close>, as the size-mismatch messages of the notebook show.\<close>

record 'a linear =
  in_features :: nat
  out_features :: nat
  weight :: "'a tensor"
  bias :: "'a tensor"

record 'a network =
  hidden_layers :: "'a linear list"
  output_layer :: "'a linear"
  dropout :: rat

type_synonym 'a state_dict = "(pname \<times> 'a tensor) list"

text \<open>
  The initialiser of the library chooses the first values of a parameter; \<open>init p k\<close> is
  element \<open>k\<close> of the parameter named \<open>p\<close>. A trained network is the same structure with
  other values, so that ranging over \<open>init\<close> ranges over every assignment of values.
\<close>

definition fresh_tensor :: "('k \<Rightarrow> nat \<Rightarrow> 'a) \<Rightarrow> 'k \<Rightarrow> nat list \<Rightarrow> 'a tensor" where
  "fresh_tensor init p shp = Tensor shp (map (init p) [0..<prod_list shp])"

definition Linear :: "('k \<Rightarrow> nat \<Rightarrow> 'a) \<Rightarrow> 'k \<Rightarrow> 'k \<Rightarrow> nat \<Rightarrow> nat \<Rightarrow> 'a linear" where
  "Linear init wname bname n_in n_out =
     \<lparr>in_features = n_in, out_features = n_out,
      weight = fresh_tensor init wname [n_out, n_in],
      bias = fresh_tensor init bname [n_out]\<rparr>"

fun hidden_stack :: "(pname \<Rightarrow> nat \<Rightarrow> 'a) \<Rightarrow> nat \<Rightarrow> nat \<Rightarrow> nat list \<Rightarrow> 'a linear list" where
  "hidden_stack init k n_in [] = []"
| "hidden_stack init k n_in (h # hs) =
     Linear init (HiddenWeight k) (HiddenBias k) n_in h # hidden_stack init (Suc k) h hs"

text \<open>
  Modelled from the spec: \<^verbatim>\<open>fc_model.Network\<close> is imported by the notebook and is not among
  the sources. The spec calls it a simple layered feed-forward network reconstructed from
  the recorded input size, output size and ordered hidden-layer widths; the layout is the one
  the notebook prints for \<^verbatim>\<open>Network(784, 10, [512, 256, 128])\<close>: a list of linear layers
  \<open>784 \<rightarrow> 512 \<rightarrow> 256 \<rightarrow> 128\<close>, an output layer \<open>128 \<rightarrow> 10\<close> fed by the last hidden layer, and
  a dropout module with \<open>p = 0.5\<close>. Without a hidden width there is no last hidden layer to
  feed the output layer, and construction is an error.
\<close>

definition Network :: "(pname \<Rightarrow> nat \<Rightarrow> 'a) \<Rightarrow> nat \<Rightarrow> nat \<Rightarrow> nat list \<Rightarrow> error + 'a network" where
  "Network init input_size output_size hidden =
     (if hidden = [] then Inl IndexError
      else Inr \<lparr>hidden_layers = hidden_stack init 0 input_size hidden,
                output_layer = Linear init OutputWeight OutputBias (last hidden) output_size,
                dropout = 1 / 2\<rparr>)"

subsection \<open>The state dict\<close>

fun hidden_items :: "nat \<Rightarrow> 'a linear list \<Rightarrow> 'a state_dict" where
  "hidden_items k [] = []"
| "hidden_items k (l # ls) =
     (HiddenWeight k, weight l) # (HiddenBias k, bias l) # hidden_items (Suc k) ls"

text \<open>\<^verbatim>\<open>model.state_dict()\<close>: the ordered mapping the notebook prints the keys of.\<close>

definition state_dict :: "'a network \<Rightarrow> 'a state_dict" where
  "state_dict m =
     hidden_items 0 (hidden_layers m) @
     [(OutputWeight, weight (output_layer m)), (OutputBias, bias (output_layer m))]"

definition parameter_names :: "'a network \<Rightarrow> pname list" where
  "parameter_names m = map fst (state_dict m)"

text \<open>
  \<^verbatim>\<open>model.load_state_dict(state_dict)\<close> with the default \<^verbatim>\<open>strict=True\<close>. The library visits
  the parameters of the module in order. A key that the state dict lacks is recorded as
  missing; an entry of another shape is recorded as a size mismatch and the parameter is
  left alone; an entry of the same shape is copied into the parameter at once. After the
  pass the keys of the state dict that name no parameter are the unexpected ones, and the
  call raises if anything was recorded. The result is the network as the call leaves it,
  and the exception if one is raised.
\<close>

definition load_param ::
  "'a state_dict \<Rightarrow> pname \<Rightarrow> 'a tensor \<Rightarrow> 'a tensor \<times> load_msg list \<times> pname list" where
  "load_param sd key param =
     (case map_of sd key of
        None \<Rightarrow> (param, [], [key])
      | Some input_param \<Rightarrow>
          if shape input_param \<noteq> shape param
          then (param, [SizeMismatch key (shape input_param) (shape param)], [])
          else (Tensor (shape param) (data input_param), [], []))"

definition load_linear ::
  "'a state_dict \<Rightarrow> pname \<Rightarrow> pname \<Rightarrow> 'a linear \<Rightarrow> 'a linear \<times> load_msg list \<times> pname list" where
  "load_linear sd wname bname l =
     (case load_param sd wname (weight l) of (w, e1, m1) \<Rightarrow>
      case load_param sd bname (bias l) of (b, e2, m2) \<Rightarrow>
        (l\<lparr>weight := w, bias := b\<rparr>, e1 @ e2, m1 @ m2))"

fun load_hidden ::
  "'a state_dict \<Rightarrow> nat \<Rightarrow> 'a linear list \<Rightarrow> 'a linear list \<times> load_msg list \<times> pname list" where
  "load_hidden sd k [] = ([], [], [])"
| "load_hidden sd k (l # ls) =
     (case load_linear sd (HiddenWeight k) (HiddenBias k) l of (l', e, m) \<Rightarrow>
      case load_hidden sd (Suc k) ls of (ls', es, ms) \<Rightarrow>
        (l' # ls', e @ es, m @ ms))"

definition load_state_dict :: "'a network \<Rightarrow> 'a state_dict \<Rightarrow> 'a network \<times> error option" where
  "load_state_dict m sd =
     (case load_hidden sd 0 (hidden_layers m) of (hs, e1, m1) \<Rightarrow>
      case load_linear sd OutputWeight OutputBias (output_layer m) of (out, e2, m2) \<Rightarrow>
        let missing_keys = m1 @ m2;
            unexpected_keys = filter (\<lambda>k. k \<notin> set (parameter_names m)) (map fst sd);
            error_msgs =
              (if missing_keys \<noteq> [] then [MissingKeys missing_keys] else []) @
              (if unexpected_keys \<noteq> [] then [UnexpectedKeys unexpected_keys] else []) @
              e1 @ e2
        in (m\<lparr>hidden_layers := hs, output_layer := out\<rparr>,
            if error_msgs \<noteq> [] then Some (RuntimeError (LoadingStateDict error_msgs)) else None))"

subsection \<open>Checkpoint files\<close>

text \<open>The dictionary of the notebook, with its four keys.\<close>

record 'a checkpoint =
  input_size :: nat
  output_size :: nat
  hidden_layers_ck :: "nat list"
  state_dict_ck :: "'a state_dict"

text \<open>What the notebook pickles into a file: first the bare state dict, later the
  checkpoint dictionary.\<close>

datatype 'a saved = SavedStateDict "'a state_dict" | SavedCheckpoint "'a checkpoint"

type_synonym 'a files = "string \<rightharpoonup> 'a saved"

definition torch_save :: "'a saved \<Rightarrow> string \<Rightarrow> 'a files \<Rightarrow> 'a files" where
  "torch_save obj f fs = fs(f \<mapsto> obj)"

definition torch_load :: "string \<Rightarrow> 'a files \<Rightarrow> error + 'a saved" where
  "torch_load f fs = (case fs f of None \<Rightarrow> Inl FileNotFoundError | Some obj \<Rightarrow> Inr obj)"

text \<open>\<^verbatim>\<open>torch.save(model.state_dict(), 'checkpoint.pth')\<close>\<close>

definition save_state_dict :: "'a network \<Rightarrow> 'a files \<Rightarrow> 'a files" where
  "save_state_dict model fs = torch_save (SavedStateDict (state_dict model)) ''checkpoint.pth'' fs"

text \<open>The dictionary literal of the notebook: 784 and 10 are written out, the hidden widths
  are read off the model (\<^verbatim>\<open>[each.out_features for each in model.hidden_layers]\<close>).\<close>

definition checkpoint_of :: "'a network \<Rightarrow> 'a checkpoint" where
  "checkpoint_of model =
     \<lparr>input_size = 784, output_size = 10,
      hidden_layers_ck = map out_features (hidden_layers model),
      state_dict_ck = state_dict model\<rparr>"

text \<open>\<^verbatim>\<open>torch.save(checkpoint, 'checkpoint.pth')\<close>\<close>

definition save_checkpoint :: "'a network \<Rightarrow> 'a files \<Rightarrow> 'a files" where
  "save_checkpoint model fs = torch_save (SavedCheckpoint (checkpoint_of model)) ''checkpoint.pth'' fs"

text \<open>
  \<^verbatim>\<open>load_checkpoint(filepath)\<close>. Subscripting a bare state dict with \<^verbatim>\<open>'input_size'\<close> is a
  \<^verbatim>\<open>KeyError\<close>; an exception of the constructor or of \<^verbatim>\<open>load_state_dict\<close> is not caught.
\<close>

definition load_checkpoint :: "(pname \<Rightarrow> nat \<Rightarrow> 'a) \<Rightarrow> 'a files \<Rightarrow> string \<Rightarrow> error + 'a network" where
  "load_checkpoint init fs filepath =
     (case torch_load filepath fs of
        Inl e \<Rightarrow> Inl e
      | Inr (SavedStateDict sd) \<Rightarrow> Inl KeyError
      | Inr (SavedCheckpoint checkpoint) \<Rightarrow>
          (case Network init (input_size checkpoint) (output_size checkpoint)
                  (hidden_layers_ck checkpoint) of
             Inl e \<Rightarrow> Inl e
           | Inr model \<Rightarrow>
               (case load_state_dict model (state_dict_ck checkpoint) of
                  (model', Some e) \<Rightarrow> Inl e
                | (model', None) \<Rightarrow> Inr model')))"

text \<open>The cell that builds \<^verbatim>\<open>Network(784, 10, [400, 200, 100])\<close> and loads a state dict into
  it; the exception, if any, ends the cell.\<close>

definition try_this :: "(pname \<Rightarrow> nat \<Rightarrow> 'a) \<Rightarrow> 'a state_dict \<Rightarrow> error + 'a network" where
  "try_this init sd =
     (case Network init 784 10 [400, 200, 100] of
        Inl e \<Rightarrow> Inl e
      | Inr model \<Rightarrow>
          (case load_state_dict model sd of
             (model', Some e) \<Rightarrow> Inl e
           | (model', None) \<Rightarrow> Inr model'))"

section \<open>Training and validation\<close>

subsection \<open>The framework and the state of a notebook session\<close>

text \<open>
  The notebooks call the framework for everything numeric. Its functions are parameters of
  the model: the forward pass of the network on one example (a row of log-probabilities,
  one per class; the first argument is the training flag, which dropout reads), the loss
  of a batch, the
  gradient that \<^verbatim>\<open>loss.backward()\<close> adds to the \<^verbatim>\<open>.grad\<close> of the parameters, the update of
  \<^verbatim>\<open>optimizer.step()\<close>, \<^verbatim>\<open>torch.exp\<close>, and the index that \<^verbatim>\<open>topk(1, dim=1)\<close> returns for a
  row of probabilities. The library does not say which index it returns when several
  entries of a row are equal and highest, so the choice is the library's and not the
  model's: \<open>top_index\<close> is whatever the library does.
\<close>

record ('p, 'x, 'v, 'l, 'g, 's) framework =
  forward :: "bool \<Rightarrow> 'p \<Rightarrow> 'x \<Rightarrow> 'v list"
  criterion :: "'v list list \<Rightarrow> nat list \<Rightarrow> 'l"
  autograd :: "bool \<Rightarrow> 'p \<Rightarrow> 'x list \<Rightarrow> nat list \<Rightarrow> 'g"
  update :: "'s \<Rightarrow> 'p \<Rightarrow> 'g \<Rightarrow> 's \<times> 'p"
  torch_exp :: "'v \<Rightarrow> 'v"
  top_index :: "'v list \<Rightarrow> nat"

text \<open>A float scalar such as \<^verbatim>\<open>accuracy\<close>: the rational number that the float stands for,
  or \<^verbatim>\<open>nan\<close>.\<close>

datatype scalar = Value rat | NaN

text \<open>The calls into the model and the optimizer, in the order they are made.\<close>

datatype call = ZeroGrad | Forward | Criterion | Backward | Step | Eval

text \<open>A tensor that remembers what it was computed from, as autograd needs.\<close>

datatype ('a, 'b) tracked = Tracked (item: 'a) (grad_fn: 'b)

record ('p, 'l, 'g, 's) session =
  parameters :: 'p
  grad :: 'g
  optimizer :: 's
  training :: bool
  running_loss :: 'l
  accuracy :: "scalar option"
  printed :: "scalar list"
  calls :: "call list"

subsection \<open>The training pass\<close>

text \<open>\<^verbatim>\<open>optimizer.zero_grad()\<close>\<close>

definition zero_grad :: "('p, 'l, 'g::monoid_add, 's) session \<Rightarrow> ('p, 'l, 'g, 's) session" where
  "zero_grad st = st\<lparr>grad := 0, calls := calls st @ [ZeroGrad]\<rparr>"

text \<open>\<^verbatim>\<open>model(images)\<close>\<close>

definition call_model ::
  "('p, 'x, 'v, 'l, 'g, 's) framework \<Rightarrow> 'x list \<Rightarrow> ('p, 'l, 'g, 's) session \<Rightarrow>
   ('v list list, bool \<times> 'p \<times> 'x list) tracked \<times> ('p, 'l, 'g, 's) session" where
  "call_model fw images st =
     (Tracked (map (forward fw (training st) (parameters st)) images)
        (training st, parameters st, images),
      st\<lparr>calls := calls st @ [Forward]\<rparr>)"

text \<open>\<^verbatim>\<open>criterion(log_ps, labels)\<close>\<close>

definition call_criterion ::
  "('p, 'x, 'v, 'l, 'g, 's) framework \<Rightarrow> ('v list list, bool \<times> 'p \<times> 'x list) tracked \<Rightarrow> nat list \<Rightarrow>
   ('p, 'l, 'g, 's) session \<Rightarrow>
   ('l, (bool \<times> 'p \<times> 'x list) \<times> nat list) tracked \<times> ('p, 'l, 'g, 's) session" where
  "call_criterion fw log_ps labels st =
     (Tracked (criterion fw (item log_ps) labels) (grad_fn log_ps, labels),
      st\<lparr>calls := calls st @ [Criterion]\<rparr>)"

text \<open>\<^verbatim>\<open>loss.backward()\<close>: the gradient of the loss, taken where the forward pass was
  computed, is added to what \<^verbatim>\<open>.grad\<close> holds.\<close>

definition backward ::
  "('p, 'x, 'v, 'l, 'g::monoid_add, 's) framework \<Rightarrow> ('l, (bool \<times> 'p \<times> 'x list) \<times> nat list) tracked \<Rightarrow>
   ('p, 'l, 'g, 's) session \<Rightarrow> ('p, 'l, 'g, 's) session" where
  "backward fw loss st =
     (case grad_fn loss of ((mode, p, images), labels) \<Rightarrow>
        st\<lparr>grad := grad st + autograd fw mode p images labels,
           calls := calls st @ [Backward]\<rparr>)"

text \<open>\<^verbatim>\<open>optimizer.step()\<close>\<close>

definition optimizer_step ::
  "('p, 'x, 'v, 'l, 'g, 's) framework \<Rightarrow> ('p, 'l, 'g, 's) session \<Rightarrow> ('p, 'l, 'g, 's) session" where
  "optimizer_step fw st =
     (case update fw (optimizer st) (parameters st) (grad st) of (s', p') \<Rightarrow>
        st\<lparr>parameters := p', optimizer := s', calls := calls st @ [Step]\<rparr>)"

text \<open>The body of the loop over \<^verbatim>\<open>trainloader\<close>.\<close>

definition training_pass ::
  "('p, 'x, 'v, 'l::monoid_add, 'g::monoid_add, 's) framework \<Rightarrow> 'x list \<times> nat list \<Rightarrow>
   ('p, 'l, 'g, 's) session \<Rightarrow> ('p, 'l, 'g, 's) session" where
  "training_pass fw batch st =
     (case batch of (images, labels) \<Rightarrow>
      let st1 = zero_grad st in
      case call_model fw images st1 of (log_ps, st2) \<Rightarrow>
      case call_criterion fw log_ps labels st2 of (loss, st3) \<Rightarrow>
      let st4 = backward fw loss st3;
          st5 = optimizer_step fw st4
      in st5\<lparr>running_loss := running_loss st5 + item loss\<rparr>)"

fun train_batches ::
  "('p, 'x, 'v, 'l::monoid_add, 'g::monoid_add, 's) framework \<Rightarrow> ('x list \<times> nat list) list \<Rightarrow>
   ('p, 'l, 'g, 's) session \<Rightarrow> ('p, 'l, 'g, 's) session" where
  "train_batches fw [] st = st"
| "train_batches fw (batch # rest) st = train_batches fw rest (training_pass fw batch st)"

subsection \<open>The validation pass\<close>

text \<open>
  \<^verbatim>\<open>ps.topk(1, dim=1)\<close>: for each row the value and the index that the library picks.
  A row without classes is out of range for \<open>k = 1\<close>.
\<close>

fun topk :: "('v list \<Rightarrow> nat) \<Rightarrow> 'v list list \<Rightarrow> error + ('v \<times> nat) list" where
  "topk pick [] = Inr []"
| "topk pick (row # rows) =
     (if row = [] then Inl (RuntimeError TopkOutOfRange)
      else (case topk pick rows of
              Inl e \<Rightarrow> Inl e
            | Inr r \<Rightarrow> Inr ((row ! pick row, pick row) # r)))"

text \<open>
  Rounding to a float32 number: to the nearest number with a significand of 24 bits, a tie
  going to the even significand. \<open>scale_up\<close> finds the power of two that brings a
  magnitude below \<open>2\<^sup>2\<^sup>4\<close> into the range of the 24-bit integers, and stops at \<open>2\<^sup>1\<^sup>4\<^sup>9\<close>,
  the spacing of the subnormal numbers; \<open>scale_down\<close> does the same for larger magnitudes.
  Magnitudes of \<open>2\<^sup>1\<^sup>2\<^sup>8\<close> and more, which are infinite in float32, do not occur here.
\<close>

definition round_half_even :: "'a::floor_ceiling \<Rightarrow> int" where
  "round_half_even x =
     (let f = \<lfloor>x\<rfloor>; d = x - of_int f
      in if d < 1 / 2 then f else if 1 / 2 < d then f + 1 else if even f then f else f + 1)"

fun scale_up :: "nat \<Rightarrow> nat \<Rightarrow> 'a::floor_ceiling \<Rightarrow> nat" where
  "scale_up 0 n x = n"
| "scale_up (Suc fuel) n x = (if 2 ^ 23 \<le> \<bar>x\<bar> * 2 ^ n then n else scale_up fuel (Suc n) x)"

fun scale_down :: "nat \<Rightarrow> nat \<Rightarrow> 'a::floor_ceiling \<Rightarrow> nat" where
  "scale_down 0 m x = m"
| "scale_down (Suc fuel) m x = (if \<bar>x\<bar> / 2 ^ m < 2 ^ 24 then m else scale_down fuel (Suc m) x)"

definition float32 :: "'a::floor_ceiling \<Rightarrow> 'a" where
  "float32 x =
     (if \<bar>x\<bar> < 2 ^ 24
      then let n = scale_up 149 0 x in of_int (round_half_even (x * 2 ^ n)) / 2 ^ n
      else let m = scale_down 104 0 x in of_int (round_half_even (x / 2 ^ m)) * 2 ^ m)"

text \<open>
  \<^verbatim>\<open>equals.type(torch.FloatTensor)\<close> and \<^verbatim>\<open>torch.mean\<close>. The tensor holds the float32
  numbers 0 and 1; up to \<open>2\<^sup>2\<^sup>4\<close> of them add up without rounding, and the quotient of the
  sum by the count is rounded to float32. The mean of no values is \<^verbatim>\<open>nan\<close>.
\<close>

definition float_of_bool :: "bool \<Rightarrow> rat" where
  "float_of_bool b = (if b then 1 else 0)"

definition mean :: "rat list \<Rightarrow> scalar" where
  "mean xs = (if xs = [] then NaN else Value (float32 (sum_list xs / of_nat (length xs))))"

text \<open>
  The four lines of the validation loop after the forward pass:
  \<^verbatim>\<open>top_p, top_class = ps.topk(1, dim=1)\<close>,
  \<^verbatim>\<open>equals = top_class == labels.view(*top_class.shape)\<close>,
  \<^verbatim>\<open>accuracy = torch.mean(equals.type(torch.FloatTensor))\<close>.
  The view fails unless there are as many labels as rows.
\<close>

definition batch_accuracy ::
  "('v list \<Rightarrow> nat) \<Rightarrow> 'v list list \<Rightarrow> nat list \<Rightarrow> error + scalar" where
  "batch_accuracy pick ps labels =
     (case topk pick ps of
        Inl e \<Rightarrow> Inl e
      | Inr top_pairs \<Rightarrow>
          let top_class = map snd top_pairs in
          if length labels \<noteq> length top_class then Inl (RuntimeError ViewSize)
          else let equals = map2 (\<lambda>c l. c = l) top_class labels
               in Inr (mean (map float_of_bool equals)))"

text \<open>The loop over \<^verbatim>\<open>testloader\<close>: each batch assigns the variable \<^verbatim>\<open>accuracy\<close>.\<close>

fun validation_loop ::
  "('p, 'x, 'v, 'l, 'g, 's) framework \<Rightarrow> ('x list \<times> nat list) list \<Rightarrow>
   ('p, 'l, 'g, 's) session \<Rightarrow> ('p, 'l, 'g, 's) session \<times> error option" where
  "validation_loop fw [] st = (st, None)"
| "validation_loop fw ((images, labels) # rest) st =
     (case call_model fw images st of (log_ps, st1) \<Rightarrow>
        (case batch_accuracy (top_index fw) (map (map (torch_exp fw)) (item log_ps)) labels of
           Inl e \<Rightarrow> (st1, Some e)
         | Inr a \<Rightarrow> validation_loop fw rest (st1\<lparr>accuracy := Some a\<rparr>)))"

text \<open>\<^verbatim>\<open>accuracy.item() * 100\<close>: a product of Python floats. A float32 number times 100
  has a significand of at most 31 bits, so the product is exact.\<close>

definition times100 :: "scalar \<Rightarrow> scalar" where
  "times100 a = (case a of Value r \<Rightarrow> Value (r * 100) | NaN \<Rightarrow> NaN)"

text \<open>\<^verbatim>\<open>print(f'Accuracy: {accuracy.item()*100}%')\<close>, after the loop.\<close>

definition print_accuracy :: "('p, 'l, 'g, 's) session \<Rightarrow> ('p, 'l, 'g, 's) session \<times> error option" where
  "print_accuracy st =
     (case accuracy st of
        None \<Rightarrow> (st, Some NameError)
      | Some a \<Rightarrow> (st\<lparr>printed := printed st @ [times100 a]\<rparr>, None))"

text \<open>The validation pass of the first training loop, under \<^verbatim>\<open>torch.no_grad()\<close>.\<close>

definition validation_pass ::
  "('p, 'x, 'v, 'l, 'g, 's) framework \<Rightarrow> ('x list \<times> nat list) list \<Rightarrow>
   ('p, 'l, 'g, 's) session \<Rightarrow> ('p, 'l, 'g, 's) session \<times> error option" where
  "validation_pass fw testloader st =
     (case validation_loop fw testloader st of
        (st1, Some e) \<Rightarrow> (st1, Some e)
      | (st1, None) \<Rightarrow> print_accuracy st1)"

text \<open>\<^verbatim>\<open>model.eval()\<close>\<close>

definition model_eval :: "('p, 'l, 'g, 's) session \<Rightarrow> ('p, 'l, 'g, 's) session" where
  "model_eval st = st\<lparr>training := False, calls := calls st @ [Eval]\<rparr>"

text \<open>The validation pass of the loop with dropout: \<^verbatim>\<open>model.eval()\<close> comes first, and
  nothing sets the model back to training mode.\<close>

definition validation_pass_eval ::
  "('p, 'x, 'v, 'l, 'g, 's) framework \<Rightarrow> ('x list \<times> nat list) list \<Rightarrow>
   ('p, 'l, 'g, 's) session \<Rightarrow> ('p, 'l, 'g, 's) session \<times> error option" where
  "validation_pass_eval fw testloader st = validation_pass fw testloader (model_eval st)"

subsection \<open>The loop over epochs\<close>

text \<open>
  One epoch: \<^verbatim>\<open>running_loss = 0\<close>, the loop over \<^verbatim>\<open>trainloader\<close>, and its \<^verbatim>\<open>else\<close> branch,
  the validation pass. The loaders shuffle, so each is given as the batches it yields in
  epoch \<open>e\<close>. \<open>with_eval\<close> tells the loop with dropout from the first one.
\<close>

definition epoch ::
  "('p, 'x, 'v, 'l::monoid_add, 'g::monoid_add, 's) framework \<Rightarrow> bool \<Rightarrow>
   ('x list \<times> nat list) list \<Rightarrow> ('x list \<times> nat list) list \<Rightarrow>
   ('p, 'l, 'g, 's) session \<Rightarrow> ('p, 'l, 'g, 's) session \<times> error option" where
  "epoch fw with_eval trainloader testloader st =
     (let st1 = train_batches fw trainloader (st\<lparr>running_loss := 0\<rparr>)
      in if with_eval then validation_pass_eval fw testloader st1
         else validation_pass fw testloader st1)"

fun epochs_from ::
  "('p, 'x, 'v, 'l::monoid_add, 'g::monoid_add, 's) framework \<Rightarrow> bool \<Rightarrow>
   (nat \<Rightarrow> ('x list \<times> nat list) list) \<Rightarrow> (nat \<Rightarrow> ('x list \<times> nat list) list) \<Rightarrow>
   nat \<Rightarrow> nat \<Rightarrow> ('p, 'l, 'g, 's) session \<Rightarrow> ('p, 'l, 'g, 's) session \<times> error option" where
  "epochs_from fw with_eval trainloader testloader e 0 st = (st, None)"
| "epochs_from fw with_eval trainloader testloader e (Suc n) st =
     (case epoch fw with_eval (trainloader e) (testloader e) st of
        (st', Some err) \<Rightarrow> (st', Some err)
      | (st', None) \<Rightarrow> epochs_from fw with_eval trainloader testloader (Suc e) n st')"

section \<open>The classifier\<close>

text \<open>
  The float arithmetic of the library. How the library rounds, and in which order it adds
  the products of a matrix product or the terms of a sum, is not in the notebook, so the
  operations are parameters: \<open>addmm b row w\<close> is one element of \<^verbatim>\<open>nn.Linear\<close>, the bias \<open>b\<close>
  plus the inner product of an input row and a weight row; \<open>sub\<close> is subtraction, \<open>total\<close>
  the sum of a list, \<open>fexp\<close> and \<open>flog\<close> are \<^verbatim>\<open>exp\<close> and \<^verbatim>\<open>log\<close>.
\<close>

record 'a arith =
  addmm :: "'a \<Rightarrow> 'a list \<Rightarrow> 'a list \<Rightarrow> 'a"
  sub :: "'a \<Rightarrow> 'a \<Rightarrow> 'a"
  total :: "'a list \<Rightarrow> 'a"
  fexp :: "'a \<Rightarrow> 'a"
  flog :: "'a \<Rightarrow> 'a"


text \<open>The names of the parameters of the classifier, \<^verbatim>\<open>fc1.weight\<close> to \<^verbatim>\<open>fc4.bias\<close>.\<close>

datatype cname =
  Fc1Weight | Fc1Bias | Fc2Weight | Fc2Bias | Fc3Weight | Fc3Bias | Fc4Weight | Fc4Bias

record 'a classifier =
  fc1 :: "'a linear"
  fc2 :: "'a linear"
  fc3 :: "'a linear"
  fc4 :: "'a linear"

text \<open>\<^verbatim>\<open>Classifier()\<close>, with the values of its parameters given by \<open>init\<close>.\<close>

definition Classifier :: "(cname \<Rightarrow> nat \<Rightarrow> 'a) \<Rightarrow> 'a classifier" where
  "Classifier init =
     \<lparr>fc1 = Linear init Fc1Weight Fc1Bias 784 256,
      fc2 = Linear init Fc2Weight Fc2Bias 256 128,
      fc3 = Linear init Fc3Weight Fc3Bias 128 64,
      fc4 = Linear init Fc4Weight Fc4Bias 64 10\<rparr>"




text \<open>
  \<^verbatim>\<open>F.log_softmax(..., dim=1)\<close> on one row: the library subtracts the highest entry of the
  row, and from that the logarithm of the sum of the exponentials.
\<close>

definition log_softmax :: "'a::linorder arith \<Rightarrow> 'a list \<Rightarrow> 'a list" where
  "log_softmax ar row =
     (case row of
        [] \<Rightarrow> []
      | v # vs \<Rightarrow>
          let max_input = fold max vs v;
              tmp_sum = flog ar (total ar (map (\<lambda>u. fexp ar (sub ar u max_input)) row))
          in map (\<lambda>u. sub ar (sub ar u max_input) tmp_sum) row)"


section \<open>Example values\<close>

text \<open>
  Small networks, files and batches on which the theorems below are evaluated;
  \<open>first_highest\<close>, a \<^verbatim>\<open>topk\<close> that takes the first of the highest entries of a row;
  \<open>single\<close>, an arithmetic that rounds the exact result of every operation to float32;
  \<open>heavy\<close>, parameters that are 0 but for the first bias of \<^verbatim>\<open>fc4\<close>.
\<close>

definition sevens :: "pname \<Rightarrow> nat \<Rightarrow> int" where
  "sevens p k = 7"

definition zeros :: "pname \<Rightarrow> nat \<Rightarrow> int" where
  "zeros p k = 0"

definition tiny :: "int network" where
  "tiny =
     \<lparr>hidden_layers =
        [\<lparr>in_features = 1, out_features = 1, weight = Tensor [1, 1] [7], bias = Tensor [1] [7]\<rparr>],
      output_layer =
        \<lparr>in_features = 1, out_features = 1, weight = Tensor [1, 1] [7], bias = Tensor [1] [7]\<rparr>,
      dropout = 1 / 2\<rparr>"

definition pair :: "int network" where
  "pair =
     \<lparr>hidden_layers =
        [\<lparr>in_features = 1, out_features = 2, weight = Tensor [2, 1] [7, 7],
          bias = Tensor [2] [7, 7]\<rparr>],
      output_layer =
        \<lparr>in_features = 2, out_features = 1, weight = Tensor [1, 2] [7, 7], bias = Tensor [1] [7]\<rparr>,
      dropout = 1 / 2\<rparr>"

definition blank :: "int network" where
  "blank =
     \<lparr>hidden_layers =
        [\<lparr>in_features = 1, out_features = 1, weight = Tensor [1, 1] [0], bias = Tensor [1] [0]\<rparr>],
      output_layer =
        \<lparr>in_features = 1, out_features = 1, weight = Tensor [1, 1] [0], bias = Tensor [1] [0]\<rparr>,
      dropout = 1 / 2\<rparr>"

definition deeper :: "int network" where
  "deeper =
     \<lparr>hidden_layers =
        [\<lparr>in_features = 1, out_features = 1, weight = Tensor [1, 1] [0], bias = Tensor [1] [0]\<rparr>,
         \<lparr>in_features = 1, out_features = 1, weight = Tensor [1, 1] [0], bias = Tensor [1] [0]\<rparr>],
      output_layer =
        \<lparr>in_features = 1, out_features = 1, weight = Tensor [1, 1] [0], bias = Tensor [1] [0]\<rparr>,
      dropout = 1 / 2\<rparr>"

definition wide :: "int network" where
  "wide =
     \<lparr>hidden_layers = hidden_stack sevens 0 784 [1],
      output_layer = Linear sevens OutputWeight OutputBias 1 10,
      dropout = 1 / 2\<rparr>"

definition pair_record :: "int checkpoint" where
  "pair_record =
     \<lparr>input_size = 1, output_size = 1, hidden_layers_ck = [2], state_dict_ck = state_dict pair\<rparr>"

definition no_files :: "int files" where
  "no_files = Map.empty"

fun first_highest :: "'v::linorder list \<Rightarrow> nat" where
  "first_highest [] = 0"
| "first_highest [x] = 0"
| "first_highest (x # y # ys) =
     (let i = first_highest (y # ys) in if (y # ys) ! i \<le> x then 0 else Suc i)"

definition guess :: "(unit, nat, real, real, real, unit) framework" where
  "guess =
     \<lparr>forward =
        (\<lambda>mode p image.
           if image = 0 then [ln (3 / 4), ln (1 / 4)] else [ln (1 / 4), ln (3 / 4)]),
      criterion = (\<lambda>log_ps labels. 0),
      autograd = (\<lambda>mode p images labels. 0),
      update = (\<lambda>s p g. (s, p)),
      torch_exp = exp,
      top_index = first_highest\<rparr>"

definition two_batches :: "(nat list \<times> nat list) list" where
  "two_batches = [([0], [1]), ([1], [1])]"

definition fresh_session :: "(unit, real, real, unit) session" where
  "fresh_session =
     \<lparr>parameters = (), grad = 0, optimizer = (), training = True, running_loss = 0,
      accuracy = None, printed = [], calls = []\<rparr>"

definition quarters :: "rat list list" where
  "quarters = [[1 / 4, 3 / 4], [2 / 3, 1 / 3]]"

definition thirds :: "rat list list" where
  "thirds = [[1 / 4, 3 / 4], [3 / 4, 1 / 4], [3 / 4, 1 / 4]]"





section \<open>Properties of saving and loading\<close>

subsection \<open>The state dict seen as a list of named tensors\<close>

lemma shape_fresh_tensor [simp]: "shape (fresh_tensor init p shp) = shp"
  by (simp add: fresh_tensor_def)

lemma fresh_tensor_any:
  assumes "length xs = prod_list shp"
  shows "fresh_tensor (\<lambda>p k. xs ! k) p shp = Tensor shp xs"
proof -
  have "map (\<lambda>k. xs ! k) [0..<length xs] = xs"
    by (rule map_nth)
  then have "map (\<lambda>k. xs ! k) [0..<prod_list shp] = xs"
    by (simp only: assms)
  then show ?thesis
    by (simp only: fresh_tensor_def)
qed

lemma copy_same_shape: "shape t = shape p \<Longrightarrow> Tensor (shape p) (data t) = t"
  by (cases t) simp

lemma shape_load_param [simp]: "shape (fst (load_param sd key p)) = shape p"
  by (simp add: load_param_def split: option.splits)

lemma load_linear_flat:
  assumes "load_linear sd wn bn l = (l', es, ms)"
  shows "weight l' = fst (load_param sd wn (weight l))"
    and "bias l' = fst (load_param sd bn (bias l))"
    and "in_features l' = in_features l"
    and "out_features l' = out_features l"
    and "es = fst (snd (load_param sd wn (weight l))) @ fst (snd (load_param sd bn (bias l)))"
    and "ms = snd (snd (load_param sd wn (weight l))) @ snd (snd (load_param sd bn (bias l)))"
  using assms by (auto simp: load_linear_def split: prod.splits)

lemma load_hidden_flat:
  assumes "load_hidden sd k ls = (ls', es, ms)"
  shows "hidden_items k ls' = map (\<lambda>(key, p). (key, fst (load_param sd key p))) (hidden_items k ls)"
    and "es = concat (map (\<lambda>(key, p). fst (snd (load_param sd key p))) (hidden_items k ls))"
    and "ms = concat (map (\<lambda>(key, p). snd (snd (load_param sd key p))) (hidden_items k ls))"
    and "map in_features ls' = map in_features ls"
    and "map out_features ls' = map out_features ls"
  using assms
proof (induction ls arbitrary: k ls' es ms)
  case Nil
  { case 1 then show ?case by simp }
  { case 2 then show ?case by simp }
  { case 3 then show ?case by simp }
  { case 4 then show ?case by simp }
  { case 5 then show ?case by simp }
next
  case (Cons l ls)
  { case 1 then show ?case using Cons.IH(1) by (auto split: prod.splits dest: load_linear_flat) }
  { case 2 then show ?case using Cons.IH(2) by (auto split: prod.splits dest: load_linear_flat) }
  { case 3 then show ?case using Cons.IH(3) by (auto split: prod.splits dest: load_linear_flat) }
  { case 4 then show ?case using Cons.IH(4) by (auto split: prod.splits dest: load_linear_flat) }
  { case 5 then show ?case using Cons.IH(5) by (auto split: prod.splits dest: load_linear_flat) }
qed

lemma fst_set_hidden_items:
  "fst ` set (hidden_items k ls) = (\<Union>j\<in>{k..<k + length ls}. {HiddenWeight j, HiddenBias j})"
proof (induction ls arbitrary: k)
  case Nil
  then show ?case by simp
next
  case (Cons l ls)
  have "{k..<k + length (l # ls)} = insert k {Suc k..<Suc k + length ls}"
    by auto
  then show ?case using Cons.IH [of "Suc k"] by auto
qed

lemma distinct_hidden_items: "distinct (map fst (hidden_items k ls))"
proof (induction ls arbitrary: k)
  case Nil
  then show ?case by simp
next
  case (Cons l ls)
  have "HiddenWeight k \<notin> fst ` set (hidden_items (Suc k) ls)"
    and "HiddenBias k \<notin> fst ` set (hidden_items (Suc k) ls)"
    by (auto simp: fst_set_hidden_items)
  then show ?case using Cons.IH [of "Suc k"] by simp
qed

lemma set_parameter_names:
  "set (parameter_names m) =
     (\<Union>j\<in>{0..<length (hidden_layers m)}. {HiddenWeight j, HiddenBias j}) \<union> {OutputWeight, OutputBias}"
  using fst_set_hidden_items [of 0 "hidden_layers m"]
  by (auto simp: parameter_names_def state_dict_def image_Un)

lemma distinct_state_dict: "distinct (map fst (state_dict m))"
  using distinct_hidden_items [of 0 "hidden_layers m"] fst_set_hidden_items [of 0 "hidden_layers m"]
  by (auto simp: state_dict_def)

lemma length_hidden_items: "length (hidden_items k ls) = 2 * length ls"
  by (induction ls arbitrary: k) simp_all

lemma load_state_dict_flat:
  assumes "load_state_dict m sd = (m', err)"
  shows "state_dict m' = map (\<lambda>(key, p). (key, fst (load_param sd key p))) (state_dict m)"
    and "map in_features (hidden_layers m') = map in_features (hidden_layers m)"
    and "map out_features (hidden_layers m') = map out_features (hidden_layers m)"
    and "in_features (output_layer m') = in_features (output_layer m)"
    and "out_features (output_layer m') = out_features (output_layer m)"
    and "dropout m' = dropout m"
  using assms
  by (auto simp: load_state_dict_def state_dict_def Let_def split: prod.splits
      dest: load_hidden_flat load_linear_flat)

lemma load_state_dict_error:
  "snd (load_state_dict m sd) =
     (let missing_keys = concat (map (\<lambda>(key, p). snd (snd (load_param sd key p))) (state_dict m));
          unexpected_keys = filter (\<lambda>k. k \<notin> set (parameter_names m)) (map fst sd);
          error_msgs =
            (if missing_keys \<noteq> [] then [MissingKeys missing_keys] else []) @
            (if unexpected_keys \<noteq> [] then [UnexpectedKeys unexpected_keys] else []) @
            concat (map (\<lambda>(key, p). fst (snd (load_param sd key p))) (state_dict m))
      in if error_msgs \<noteq> [] then Some (RuntimeError (LoadingStateDict error_msgs)) else None)"
proof -
  obtain hs e1 m1 where h: "load_hidden sd 0 (hidden_layers m) = (hs, e1, m1)"
    by (metis prod_cases3)
  obtain out e2 m2 where
    l: "load_linear sd OutputWeight OutputBias (output_layer m) = (out, e2, m2)"
    by (metis prod_cases3)
  show ?thesis
    using load_hidden_flat(2,3) [OF h] load_linear_flat(5,6) [OF l]
    by (simp add: load_state_dict_def h l state_dict_def Let_def)
qed

lemma load_state_dict_keeps_shapes:
  "map (\<lambda>(key, p). (key, shape p)) (state_dict (fst (load_state_dict m sd))) =
   map (\<lambda>(key, p). (key, shape p)) (state_dict m)"
proof -
  obtain m' err where l: "load_state_dict m sd = (m', err)"
    by (cases "load_state_dict m sd")
  show ?thesis
    by (simp add: l load_state_dict_flat(1) [OF l] case_prod_beta comp_def)
qed

subsection \<open>Networks of one architecture\<close>

lemma length_hidden_stack [simp]: "length (hidden_stack init k n hs) = length hs"
  by (induction hs arbitrary: k n) simp_all

lemma out_features_hidden_stack [simp]: "map out_features (hidden_stack init k n hs) = hs"
  by (induction hs arbitrary: k n) (simp_all add: Linear_def)

lemma in_features_hidden_stack:
  "map in_features (hidden_stack init k n hs) = map in_features (hidden_stack vals k n hs)"
  by (induction hs arbitrary: k n) (simp_all add: Linear_def)

lemma key_shapes_hidden_stack:
  "map (\<lambda>(key, p). (key, shape p)) (hidden_items k (hidden_stack init k n hs)) =
   map (\<lambda>(key, p). (key, shape p)) (hidden_items k (hidden_stack vals k n hs))"
  by (induction hs arbitrary: k n) (simp_all add: Linear_def)

lemma hidden_layers_Network:
  "Network init i o' hs = Inr m \<Longrightarrow> hidden_layers m = hidden_stack init 0 i hs"
  by (auto simp: Network_def split: if_splits)

lemma key_shapes_Network:
  assumes "Network init i o' hs = Inr tgt" and "Network vals i o' hs = Inr src"
  shows "map (\<lambda>(key, p). (key, shape p)) (state_dict tgt) =
         map (\<lambda>(key, p). (key, shape p)) (state_dict src)"
  using assms key_shapes_hidden_stack [of 0 init i hs vals]
  by (auto simp: Network_def state_dict_def Linear_def split: if_splits)

lemma load_param_nth:
  assumes "distinct (map fst sd)"
    and "map (\<lambda>(key, p). (key, shape p)) tgt = map (\<lambda>(key, p). (key, shape p)) sd"
    and "n < length tgt"
  shows "load_param sd (fst (tgt ! n)) (snd (tgt ! n)) = (snd (sd ! n), [], [])"
    and "fst (tgt ! n) = fst (sd ! n)"
proof -
  let ?f = "\<lambda>(key :: pname, p :: 'a tensor). (key, shape p)"
  have "length (map ?f tgt) = length (map ?f sd)"
    using assms(2) by simp
  then have len: "length tgt = length sd" by simp
  have "map ?f tgt ! n = map ?f sd ! n"
    using assms(2) by simp
  then have "?f (tgt ! n) = ?f (sd ! n)"
    using assms(3) len by simp
  then have k: "fst (tgt ! n) = fst (sd ! n)" and s: "shape (snd (tgt ! n)) = shape (snd (sd ! n))"
    by (simp_all add: case_prod_beta)
  show "fst (tgt ! n) = fst (sd ! n)" by (rule k)
  have "sd ! n \<in> set sd"
    using assms(3) len by simp
  then have "(fst (tgt ! n), snd (sd ! n)) \<in> set sd"
    using k by simp
  then have "map_of sd (fst (tgt ! n)) = Some (snd (sd ! n))"
    using assms(1) by (simp only: map_of_eq_Some_iff)
  then show "load_param sd (fst (tgt ! n)) (snd (tgt ! n)) = (snd (sd ! n), [], [])"
    using s by (simp add: load_param_def copy_same_shape)
qed

lemma load_same_shapes:
  assumes "distinct (map fst sd)"
    and "map (\<lambda>(key, p). (key, shape p)) tgt = map (\<lambda>(key, p). (key, shape p)) sd"
  shows "map (\<lambda>(key, p). (key, fst (load_param sd key p))) tgt = sd"
    and "concat (map (\<lambda>(key, p). fst (snd (load_param sd key p))) tgt) = []"
    and "concat (map (\<lambda>(key, p). snd (snd (load_param sd key p))) tgt) = []"
proof -
  let ?f = "\<lambda>(key :: pname, p :: 'a tensor). (key, shape p)"
  have "length (map ?f tgt) = length (map ?f sd)"
    using assms(2) by simp
  then have len: "length tgt = length sd" by simp
  show "map (\<lambda>(key, p). (key, fst (load_param sd key p))) tgt = sd"
  proof (rule nth_equalityI)
    show "length (map (\<lambda>(key, p). (key, fst (load_param sd key p))) tgt) = length sd"
      using len by simp
  next
    fix n
    assume "n < length (map (\<lambda>(key, p). (key, fst (load_param sd key p))) tgt)"
    then have n: "n < length tgt" by simp
    have "(fst (tgt ! n), fst (load_param sd (fst (tgt ! n)) (snd (tgt ! n)))) = sd ! n"
      using load_param_nth [OF assms n] by (simp add: prod_eq_iff)
    then show "map (\<lambda>(key, p). (key, fst (load_param sd key p))) tgt ! n = sd ! n"
      using n by (simp add: case_prod_beta)
  qed
  have quiet: "fst (snd (load_param sd (fst x) (snd x))) = [] \<and>
               snd (snd (load_param sd (fst x) (snd x))) = []" if "x \<in> set tgt" for x
  proof -
    from that obtain n where "n < length tgt" and "tgt ! n = x"
      unfolding in_set_conv_nth by blast
    then show ?thesis
      using load_param_nth(1) [OF assms, of n] by simp
  qed
  show "concat (map (\<lambda>(key, p). fst (snd (load_param sd key p))) tgt) = []"
    using quiet by (simp add: case_prod_beta)
  show "concat (map (\<lambda>(key, p). snd (snd (load_param sd key p))) tgt) = []"
    using quiet by (simp add: case_prod_beta)
qed

lemma hidden_items_inject:
  "hidden_items k ls = hidden_items k ls' \<Longrightarrow> map in_features ls = map in_features ls' \<Longrightarrow>
   map out_features ls = map out_features ls' \<Longrightarrow> ls = ls'"
proof (induction ls arbitrary: k ls')
  case Nil
  then show ?case by simp
next
  case (Cons l ls)
  obtain l' ls'' where ls': "ls' = l' # ls''"
    using Cons.prems(1) by (cases ls') simp_all
  have "l = l'" using Cons.prems ls' by simp
  moreover have "ls = ls''" using Cons.IH [of "Suc k" ls''] Cons.prems ls' by simp
  ultimately show ?case using ls' by simp
qed

lemma network_eqI:
  fixes a b :: "'a network"
  assumes "state_dict a = state_dict b"
    and "map in_features (hidden_layers a) = map in_features (hidden_layers b)"
    and "map out_features (hidden_layers a) = map out_features (hidden_layers b)"
    and "in_features (output_layer a) = in_features (output_layer b)"
    and "out_features (output_layer a) = out_features (output_layer b)"
    and "dropout a = dropout b"
  shows "a = b"
proof -
  have "hidden_items 0 (hidden_layers a) = hidden_items 0 (hidden_layers b)"
    and w: "weight (output_layer a) = weight (output_layer b)"
    and b: "bias (output_layer a) = bias (output_layer b)"
    using assms(1) by (simp_all add: state_dict_def)
  then have "hidden_layers a = hidden_layers b"
    using assms(2,3) by (blast intro: hidden_items_inject)
  moreover have "output_layer a = output_layer b"
    using w b assms(4,5) by simp
  ultimately show ?thesis using assms(6) by simp
qed

lemma load_state_dict_same_architecture:
  assumes tgt: "Network init i o' hs = Inr tgt" and src: "Network vals i o' hs = Inr src"
  shows "load_state_dict tgt (state_dict src) = (src, None)"
proof -
  obtain m' err where l: "load_state_dict tgt (state_dict src) = (m', err)"
    by (cases "load_state_dict tgt (state_dict src)")
  note ks = key_shapes_Network [OF tgt src]
  note same = load_same_shapes [OF distinct_state_dict ks]
  have names: "parameter_names tgt = parameter_names src"
  proof -
    have "map fst (map (\<lambda>(key, p). (key, shape p)) (state_dict tgt)) =
          map fst (map (\<lambda>(key, p). (key, shape p)) (state_dict src))"
      using ks by simp
    then show ?thesis by (simp add: parameter_names_def case_prod_beta comp_def)
  qed
  have "m' = src"
  proof (rule network_eqI)
    show "state_dict m' = state_dict src"
      using load_state_dict_flat(1) [OF l] same(1) by simp
    show "map in_features (hidden_layers m') = map in_features (hidden_layers src)"
      using load_state_dict_flat(2) [OF l] tgt src in_features_hidden_stack [of init 0 i hs vals]
      by (auto simp: Network_def split: if_splits)
    show "map out_features (hidden_layers m') = map out_features (hidden_layers src)"
      using load_state_dict_flat(3) [OF l] tgt src by (auto simp: Network_def split: if_splits)
    show "in_features (output_layer m') = in_features (output_layer src)"
      using load_state_dict_flat(4) [OF l] tgt src
      by (auto simp: Network_def Linear_def split: if_splits)
    show "out_features (output_layer m') = out_features (output_layer src)"
      using load_state_dict_flat(5) [OF l] tgt src
      by (auto simp: Network_def Linear_def split: if_splits)
    show "dropout m' = dropout src"
      using load_state_dict_flat(6) [OF l] tgt src by (auto simp: Network_def split: if_splits)
  qed
  moreover have "err = None"
  proof -
    have "filter (\<lambda>k. k \<notin> set (parameter_names tgt)) (map fst (state_dict src)) = []"
      using names by (simp add: parameter_names_def)
    then have "snd (load_state_dict tgt (state_dict src)) = None"
      using same(2,3) by (simp add: load_state_dict_error)
    then show ?thesis using l by simp
  qed
  ultimately show ?thesis using l by simp
qed

subsection \<open>The example networks\<close>

lemma Network_tiny: "Network sevens 1 1 [1] = Inr tiny"
  by (simp add: Network_def Linear_def fresh_tensor_def tiny_def sevens_def)

lemma Network_pair: "Network sevens 1 1 [2] = Inr pair"
  by (simp add: Network_def Linear_def fresh_tensor_def pair_def sevens_def upt_rec numeral_2_eq_2)

lemma Network_blank: "Network zeros 1 1 [1] = Inr blank"
  by (simp add: Network_def Linear_def fresh_tensor_def blank_def zeros_def)

lemma Network_deeper: "Network zeros 1 1 [1, 1] = Inr deeper"
  by (simp add: Network_def Linear_def fresh_tensor_def deeper_def zeros_def)

lemma Network_wide: "Network sevens 784 10 [1] = Inr wide"
  by (simp add: Network_def wide_def)

subsection \<open>The round trip through a checkpoint file\<close>

text \<open>
  Claim C1, as the code has it. The dictionary of the notebook records 784 and 10 as the
  input and output size, so the round trip holds for the networks of these sizes: for
  every sequence of hidden widths and every assignment of parameter values, saving the
  checkpoint of the network and calling \<^verbatim>\<open>load_checkpoint\<close> on the file returns the network
  itself, with the same widths and the same parameter values, whatever values the
  reconstructed network was initialised with.
\<close>

theorem checkpoint_round_trip:
  assumes "Network vals 784 10 hs = Inr model"
  shows "load_checkpoint init (save_checkpoint model fs) ''checkpoint.pth'' = Inr model \<and>
         map out_features (hidden_layers model) = hs"
proof -
  have hs: "map out_features (hidden_layers model) = hs"
    using assms by (simp add: hidden_layers_Network)
  obtain tgt where tgt: "Network init 784 10 hs = Inr tgt"
    using assms by (auto simp: Network_def split: if_splits)
  have "load_state_dict tgt (state_dict model) = (model, None)"
    using tgt assms by (rule load_state_dict_same_architecture)
  then have "load_checkpoint init (save_checkpoint model fs) ''checkpoint.pth'' = Inr model"
    using tgt hs
    by (simp add: load_checkpoint_def save_checkpoint_def torch_save_def torch_load_def
        checkpoint_of_def)
  then show ?thesis using hs by simp
qed

text \<open>The round trip at a network \<open>784 \<rightarrow> 1 \<rightarrow> 10\<close>.\<close>

theorem checkpoint_round_trip_witness:
  "Network sevens 784 10 [1] = Inr wide \<and>
   load_checkpoint zeros (save_checkpoint wide no_files) ''checkpoint.pth'' = Inr wide \<and>
   map out_features (hidden_layers wide) = [1]"
  using Network_wide checkpoint_round_trip [OF Network_wide, of zeros no_files] by simp

text \<open>
  For a network \<open>1 \<rightarrow> 1 \<rightarrow> 1\<close> the checkpoint still records 784 and 10; the loader rebuilds
  a network \<open>784 \<rightarrow> 1 \<rightarrow> 10\<close> and the state dict does not fit it.
\<close>

theorem checkpoint_round_trip_counterexample:
  "Network sevens 1 1 [1] = Inr tiny \<and>
   load_checkpoint zeros (save_checkpoint tiny no_files) ''checkpoint.pth'' =
     Inl (RuntimeError (LoadingStateDict
       [SizeMismatch (HiddenWeight 0) [1, 1] [1, 784],
        SizeMismatch OutputWeight [1, 1] [10, 1],
        SizeMismatch OutputBias [1] [10]]))"
proof
  show "Network sevens 1 1 [1] = Inr tiny" by (rule Network_tiny)
  show "load_checkpoint zeros (save_checkpoint tiny no_files) ''checkpoint.pth'' =
     Inl (RuntimeError (LoadingStateDict
       [SizeMismatch (HiddenWeight 0) [1, 1] [1, 784],
        SizeMismatch OutputWeight [1, 1] [10, 1],
        SizeMismatch OutputBias [1] [10]]))"
    by (simp add: load_checkpoint_def save_checkpoint_def torch_save_def torch_load_def
        checkpoint_of_def Network_def Linear_def load_state_dict_def load_linear_def
        load_param_def state_dict_def parameter_names_def tiny_def)
qed

text \<open>
  Claim C5, as the code has it. The file holds a checkpoint record whose state dict is
  that of a network with the recorded input size, output size and hidden widths. Then
  \<^verbatim>\<open>load_checkpoint\<close> raises nothing and returns that network, whose hidden widths are the
  recorded ones.
\<close>

theorem load_checkpoint_consistent_record:
  assumes "fs filepath = Some (SavedCheckpoint cp)"
    and "Network vals (input_size cp) (output_size cp) (hidden_layers_ck cp) = Inr src"
    and "state_dict_ck cp = state_dict src"
  shows "load_checkpoint init fs filepath = Inr src \<and>
         map out_features (hidden_layers src) = hidden_layers_ck cp"
proof -
  have hs: "map out_features (hidden_layers src) = hidden_layers_ck cp"
    using assms(2) by (simp add: hidden_layers_Network)
  obtain tgt where
    tgt: "Network init (input_size cp) (output_size cp) (hidden_layers_ck cp) = Inr tgt"
    using assms(2) by (auto simp: Network_def split: if_splits)
  have "load_state_dict tgt (state_dict src) = (src, None)"
    using tgt assms(2) by (rule load_state_dict_same_architecture)
  then have "load_checkpoint init fs filepath = Inr src"
    using tgt assms(1,3) by (simp add: load_checkpoint_def torch_load_def)
  then show ?thesis using hs by simp
qed

theorem load_checkpoint_consistent_record_witness:
  "(no_files(''other.pth'' \<mapsto> SavedCheckpoint pair_record)) ''other.pth'' =
     Some (SavedCheckpoint pair_record) \<and>
   Network sevens (input_size pair_record) (output_size pair_record)
     (hidden_layers_ck pair_record) = Inr pair \<and>
   state_dict_ck pair_record = state_dict pair \<and>
   load_checkpoint zeros (no_files(''other.pth'' \<mapsto> SavedCheckpoint pair_record)) ''other.pth'' =
     Inr pair \<and>
   map out_features (hidden_layers pair) = hidden_layers_ck pair_record"
proof -
  have f: "(no_files(''other.pth'' \<mapsto> SavedCheckpoint pair_record)) ''other.pth'' =
     Some (SavedCheckpoint pair_record)"
    by simp
  have n: "Network sevens (input_size pair_record) (output_size pair_record)
     (hidden_layers_ck pair_record) = Inr pair"
    using Network_pair by (simp add: pair_record_def)
  have d: "state_dict_ck pair_record = state_dict pair"
    by (simp add: pair_record_def)
  show ?thesis
    using f n d
      load_checkpoint_consistent_record
        [where fs = "no_files(''other.pth'' \<mapsto> SavedCheckpoint pair_record)"
           and filepath = "''other.pth''" and cp = pair_record and vals = sevens and src = pair
           and init = zeros]
    by blast
qed

text \<open>
  The record the notebook builds from a network \<open>1 \<rightarrow> 2 \<rightarrow> 1\<close>: its widths and its tensors
  come from that network, its sizes are 784 and 10, and loading it fails.
\<close>

theorem load_checkpoint_record_counterexample:
  "hidden_layers_ck (checkpoint_of pair) = map out_features (hidden_layers pair) \<and>
   state_dict_ck (checkpoint_of pair) = state_dict pair \<and>
   load_checkpoint zeros (no_files(''other.pth'' \<mapsto> SavedCheckpoint (checkpoint_of pair)))
     ''other.pth'' =
     Inl (RuntimeError (LoadingStateDict
       [SizeMismatch (HiddenWeight 0) [2, 1] [2, 784],
        SizeMismatch OutputWeight [1, 2] [10, 2],
        SizeMismatch OutputBias [1] [10]]))"
  by (simp add: load_checkpoint_def torch_load_def checkpoint_of_def Network_def Linear_def
      load_state_dict_def load_linear_def load_param_def state_dict_def parameter_names_def
      pair_def)

subsection \<open>Loading into a network of other widths\<close>

lemma hidden_items_nth:
  "j < length ls \<Longrightarrow>
   (HiddenWeight (k + j), weight (ls ! j)) \<in> set (hidden_items k ls) \<and>
   (HiddenBias (k + j), bias (ls ! j)) \<in> set (hidden_items k ls)"
proof (induction ls arbitrary: k j)
  case Nil
  then show ?case by simp
next
  case (Cons l ls)
  show ?case
  proof (cases j)
    case 0
    then show ?thesis by simp
  next
    case (Suc j')
    then have "j' < length ls" using Cons.prems by simp
    from Cons.IH [OF this, of "Suc k"] show ?thesis using Suc by simp
  qed
qed

lemma shape_bias_hidden_stack:
  "j < length hs \<Longrightarrow> shape (bias (hidden_stack init k n hs ! j)) = [hs ! j]"
proof (induction hs arbitrary: k n j)
  case Nil
  then show ?case by simp
next
  case (Cons h hs)
  then show ?case by (cases j) (simp_all add: Linear_def)
qed

lemma hidden_bias_in_state_dict:
  assumes "Network init i o' hs = Inr m" and "j < length hs"
  shows "\<exists>p. (HiddenBias j, p) \<in> set (state_dict m) \<and> shape p = [hs ! j]"
    and "\<exists>p. (HiddenWeight j, p) \<in> set (state_dict m)"
proof -
  have j: "j < length (hidden_layers m)"
    using assms by (simp add: hidden_layers_Network)
  from hidden_items_nth [OF j, of 0]
  have "(HiddenBias j, bias (hidden_layers m ! j)) \<in> set (state_dict m)"
    and w: "(HiddenWeight j, weight (hidden_layers m ! j)) \<in> set (state_dict m)"
    by (simp_all add: state_dict_def)
  moreover have "shape (bias (hidden_layers m ! j)) = [hs ! j]"
    using assms by (simp add: hidden_layers_Network shape_bias_hidden_stack)
  ultimately show "\<exists>p. (HiddenBias j, p) \<in> set (state_dict m) \<and> shape p = [hs ! j]"
    by blast
  show "\<exists>p. (HiddenWeight j, p) \<in> set (state_dict m)"
    using w by blast
qed

lemma missing_reported:
  assumes "(key, p) \<in> set tgt" and "map_of sd key = None"
  shows "concat (map (\<lambda>(key, p). snd (snd (load_param sd key p))) tgt) \<noteq> []"
proof -
  have "snd (snd (load_param sd key p)) = [key]"
    using assms(2) by (simp add: load_param_def)
  then show ?thesis using assms(1) by force
qed

lemma size_mismatch_reported:
  assumes "(key, p) \<in> set tgt" and "map_of sd key = Some t" and "shape t \<noteq> shape p"
  shows "SizeMismatch key (shape t) (shape p) \<in>
         set (concat (map (\<lambda>(key, p). fst (snd (load_param sd key p))) tgt))"
proof -
  have "fst (snd (load_param sd key p)) = [SizeMismatch key (shape t) (shape p)]"
    using assms(2,3) by (simp add: load_param_def)
  then show ?thesis using assms(1) by force
qed

lemma same_length_size_mismatch:
  assumes src: "Network vals i o' hs = Inr src" and tgt: "Network init i' o'' hs' = Inr tgt"
    and neq: "hs' \<noteq> hs" and same: "length hs' = length hs"
  shows "\<exists>key s s'. SizeMismatch key s s' \<in>
           set (concat (map (\<lambda>(key, p). fst (snd (load_param (state_dict src) key p))) (state_dict tgt)))"
proof -
  obtain j where j: "j < length hs" and d: "hs ! j \<noteq> hs' ! j"
    using neq same by (auto simp: list_eq_iff_nth_eq)
  obtain p where p: "(HiddenBias j, p) \<in> set (state_dict tgt)" and sp: "shape p = [hs' ! j]"
    using hidden_bias_in_state_dict(1) [OF tgt, of j] j same by auto
  obtain t where t: "(HiddenBias j, t) \<in> set (state_dict src)" and st: "shape t = [hs ! j]"
    using hidden_bias_in_state_dict(1) [OF src j] by blast
  have "map_of (state_dict src) (HiddenBias j) = Some t"
    using t distinct_state_dict [of src] by (simp only: map_of_eq_Some_iff)
  moreover have "shape t \<noteq> shape p" using d sp st by simp
  ultimately show ?thesis using size_mismatch_reported [OF p] by blast
qed

lemma other_widths_report:
  assumes src: "Network vals i o' hs = Inr src" and tgt: "Network init i' o'' hs' = Inr tgt"
    and neq: "hs' \<noteq> hs"
  shows "concat (map (\<lambda>(key, p). snd (snd (load_param (state_dict src) key p))) (state_dict tgt)) \<noteq> []
       \<or> filter (\<lambda>k. k \<notin> set (parameter_names tgt)) (map fst (state_dict src)) \<noteq> []
       \<or> (\<exists>key s s'. SizeMismatch key s s' \<in>
             set (concat (map (\<lambda>(key, p). fst (snd (load_param (state_dict src) key p))) (state_dict tgt))))"
proof -
  have ls: "length (hidden_layers src) = length hs" and lt: "length (hidden_layers tgt) = length hs'"
    using src tgt by (simp_all add: hidden_layers_Network)
  consider (longer) "length hs < length hs'" | (shorter) "length hs' < length hs"
    | (same) "length hs' = length hs"
    by linarith
  then show ?thesis
  proof cases
    case longer
    then obtain p where p: "(HiddenWeight (length hs), p) \<in> set (state_dict tgt)"
      using hidden_bias_in_state_dict(2) [OF tgt] by blast
    have "HiddenWeight (length hs) \<notin> set (parameter_names src)"
      by (simp add: set_parameter_names ls)
    then have "map_of (state_dict src) (HiddenWeight (length hs)) = None"
      by (simp add: parameter_names_def map_of_eq_None_iff)
    from missing_reported [OF p this] show ?thesis by blast
  next
    case shorter
    then obtain p where p: "(HiddenWeight (length hs'), p) \<in> set (state_dict src)"
      using hidden_bias_in_state_dict(2) [OF src] by blast
    have "HiddenWeight (length hs') \<notin> set (parameter_names tgt)"
      by (simp add: set_parameter_names lt)
    moreover have "HiddenWeight (length hs') \<in> set (map fst (state_dict src))"
      using p by force
    ultimately have "filter (\<lambda>k. k \<notin> set (parameter_names tgt)) (map fst (state_dict src)) \<noteq> []"
      by (simp only: filter_empty_conv) blast
    then show ?thesis by blast
  next
    case same
    from same_length_size_mismatch [OF src tgt neq same] show ?thesis by blast
  qed
qed

lemma other_widths_raise:
  assumes "Network vals i o' hs = Inr src" and "Network init i' o'' hs' = Inr tgt"
    and neq: "hs' \<noteq> hs"
  shows "\<exists>msgs. msgs \<noteq> [] \<and>
           snd (load_state_dict tgt (state_dict src)) = Some (RuntimeError (LoadingStateDict msgs)) \<and>
           (length hs' = length hs \<longrightarrow> (\<exists>key s s'. SizeMismatch key s s' \<in> set msgs))"
proof -
  define missing where
    "missing = concat (map (\<lambda>(key, p). snd (snd (load_param (state_dict src) key p))) (state_dict tgt))"
  define unexpected where
    "unexpected = filter (\<lambda>k. k \<notin> set (parameter_names tgt)) (map fst (state_dict src))"
  define sizes where
    "sizes = concat (map (\<lambda>(key, p). fst (snd (load_param (state_dict src) key p))) (state_dict tgt))"
  define msgs where
    "msgs = (if missing \<noteq> [] then [MissingKeys missing] else []) @
            (if unexpected \<noteq> [] then [UnexpectedKeys unexpected] else []) @ sizes"
  have "missing \<noteq> [] \<or> unexpected \<noteq> [] \<or> (\<exists>key s s'. SizeMismatch key s s' \<in> set sizes)"
    using other_widths_report [OF assms(1,2) neq]
    unfolding missing_def unexpected_def sizes_def .
  then have ne: "msgs \<noteq> []"
    unfolding msgs_def by (cases "sizes = []") auto
  have "snd (load_state_dict tgt (state_dict src)) =
          (if msgs \<noteq> [] then Some (RuntimeError (LoadingStateDict msgs)) else None)"
    unfolding load_state_dict_error Let_def msgs_def missing_def unexpected_def sizes_def ..
  then have e: "snd (load_state_dict tgt (state_dict src)) = Some (RuntimeError (LoadingStateDict msgs))"
    using ne by simp
  have "\<exists>key s s'. SizeMismatch key s s' \<in> set msgs" if "length hs' = length hs"
  proof -
    have "\<exists>key s s'. SizeMismatch key s s' \<in> set sizes"
      using same_length_size_mismatch [OF assms(1,2) neq that] unfolding sizes_def .
    then show ?thesis unfolding msgs_def by auto
  qed
  then show ?thesis using ne e by blast
qed

text \<open>
  Claim C2, as the code has it. A checkpoint is built from a network \<open>src\<close>; the target
  network \<open>tgt\<close> has hidden widths other than the recorded ones. Then
  \<^verbatim>\<open>tgt.load_state_dict\<close> raises the \<^verbatim>\<open>RuntimeError\<close> of the library with at least one
  message: a size mismatch, missing keys or unexpected keys, and a size mismatch for sure
  when the two sequences of widths have the same length. No parameter of the target is
  truncated or padded: each keeps its name and its shape. The exception is not caught by
  the cell that makes the call (\<open>try_this_raises\<close> below).
\<close>

theorem load_other_widths_fails:
  assumes "Network vals i o' hs = Inr src" and "Network init i' o'' hs' = Inr tgt"
    and "hs' \<noteq> hidden_layers_ck (checkpoint_of src)"
  shows "\<exists>msgs. msgs \<noteq> [] \<and>
           snd (load_state_dict tgt (state_dict_ck (checkpoint_of src))) =
             Some (RuntimeError (LoadingStateDict msgs)) \<and>
           (length hs' = length (hidden_layers_ck (checkpoint_of src)) \<longrightarrow>
              (\<exists>key s s'. SizeMismatch key s s' \<in> set msgs)) \<and>
           map (\<lambda>(key, p). (key, shape p))
               (state_dict (fst (load_state_dict tgt (state_dict_ck (checkpoint_of src))))) =
           map (\<lambda>(key, p). (key, shape p)) (state_dict tgt)"
proof -
  have w: "hidden_layers_ck (checkpoint_of src) = hs"
    using assms(1) by (simp add: checkpoint_of_def hidden_layers_Network)
  then have neq: "hs' \<noteq> hs" using assms(3) by simp
  have sd: "state_dict_ck (checkpoint_of src) = state_dict src"
    by (simp add: checkpoint_of_def)
  show ?thesis
    unfolding sd w
    using other_widths_raise [OF assms(1,2) neq]
      load_state_dict_keeps_shapes [of tgt "state_dict src"] by blast
qed

theorem load_other_widths_fails_witness:
  "Network sevens 1 1 [2] = Inr pair \<and> Network zeros 1 1 [1] = Inr blank \<and>
   [1] \<noteq> hidden_layers_ck (checkpoint_of pair) \<and>
   (\<exists>msgs. msgs \<noteq> [] \<and>
      snd (load_state_dict blank (state_dict_ck (checkpoint_of pair))) =
        Some (RuntimeError (LoadingStateDict msgs)) \<and>
      (length [1 :: nat] = length (hidden_layers_ck (checkpoint_of pair)) \<longrightarrow>
         (\<exists>key s s'. SizeMismatch key s s' \<in> set msgs)) \<and>
      map (\<lambda>(key, p). (key, shape p))
          (state_dict (fst (load_state_dict blank (state_dict_ck (checkpoint_of pair))))) =
      map (\<lambda>(key, p). (key, shape p)) (state_dict blank))"
proof -
  have w: "[1] \<noteq> hidden_layers_ck (checkpoint_of pair)"
    by (simp add: checkpoint_of_def pair_def)
  show ?thesis
    using Network_pair Network_blank w load_other_widths_fails [OF Network_pair Network_blank w]
    by simp
qed

text \<open>
  The widths \<open>[1]\<close> loaded into a network of widths \<open>[1, 1]\<close>: every tensor of the state
  dict fits the parameter of its name, and the error reports missing keys only.
\<close>

theorem load_other_widths_counterexample:
  "Network sevens 1 1 [1] = Inr tiny \<and> Network zeros 1 1 [1, 1] = Inr deeper \<and>
   [1, 1] \<noteq> hidden_layers_ck (checkpoint_of tiny) \<and>
   snd (load_state_dict deeper (state_dict_ck (checkpoint_of tiny))) =
     Some (RuntimeError (LoadingStateDict [MissingKeys [HiddenWeight 1, HiddenBias 1]]))"
proof -
  have "snd (load_state_dict deeper (state_dict_ck (checkpoint_of tiny))) =
     Some (RuntimeError (LoadingStateDict [MissingKeys [HiddenWeight 1, HiddenBias 1]]))"
    by (simp add: checkpoint_of_def load_state_dict_def load_linear_def load_param_def
        state_dict_def parameter_names_def tiny_def deeper_def)
  moreover have "[1, 1] \<noteq> hidden_layers_ck (checkpoint_of tiny)"
    by (simp add: checkpoint_of_def tiny_def)
  ultimately show ?thesis using Network_tiny Network_deeper by simp
qed

lemma try_this_raises:
  assumes "Network vals i o' hs = Inr src" and "hs \<noteq> [400, 200, 100]"
  shows "\<exists>msgs. msgs \<noteq> [] \<and>
           try_this init (state_dict src) = Inl (RuntimeError (LoadingStateDict msgs))"
proof -
  obtain tgt where tgt: "Network init 784 10 [400, 200, 100] = Inr tgt"
    by (simp add: Network_def)
  have "[400, 200, 100] \<noteq> hs"
    using assms(2) by simp
  from other_widths_raise [OF assms(1) tgt this]
  obtain msgs where ne: "msgs \<noteq> []"
    and e: "snd (load_state_dict tgt (state_dict src)) = Some (RuntimeError (LoadingStateDict msgs))"
    by auto
  obtain m' where "load_state_dict tgt (state_dict src) = (m', Some (RuntimeError (LoadingStateDict msgs)))"
    using e by (cases "load_state_dict tgt (state_dict src)") simp
  then have "try_this init (state_dict src) = Inl (RuntimeError (LoadingStateDict msgs))"
    using tgt by (simp add: try_this_def)
  then show ?thesis using ne by blast
qed

text \<open>
  Claim C9, as the code has it. When \<^verbatim>\<open>load_state_dict\<close> raises, a parameter of the target
  that the state dict lacks, or whose entry has another shape, keeps its value; a
  parameter whose entry has the same shape holds the elements of the entry.
\<close>

theorem failed_load_state_dict_effect:
  assumes "snd (load_state_dict m sd) = Some e"
  shows "state_dict (fst (load_state_dict m sd)) =
         map (\<lambda>(key, p).
                (key, case map_of sd key of
                        None \<Rightarrow> p
                      | Some t \<Rightarrow> if shape t \<noteq> shape p then p else Tensor (shape p) (data t)))
             (state_dict m)"
proof -
  obtain m' err where l: "load_state_dict m sd = (m', err)"
    by (cases "load_state_dict m sd")
  have "fst (load_param sd key p) =
          (case map_of sd key of
             None \<Rightarrow> p
           | Some t \<Rightarrow> if shape t \<noteq> shape p then p else Tensor (shape p) (data t))" for key p
    by (simp add: load_param_def split: option.splits)
  then show ?thesis
    using load_state_dict_flat(1) [OF l] l by simp
qed

theorem failed_load_state_dict_effect_witness:
  "snd (load_state_dict blank (state_dict pair)) =
     Some (RuntimeError (LoadingStateDict
       [SizeMismatch (HiddenWeight 0) [2, 1] [1, 1],
        SizeMismatch (HiddenBias 0) [2] [1],
        SizeMismatch OutputWeight [1, 2] [1, 1]])) \<and>
   state_dict (fst (load_state_dict blank (state_dict pair))) =
     [(HiddenWeight 0, Tensor [1, 1] [0]), (HiddenBias 0, Tensor [1] [0]),
      (OutputWeight, Tensor [1, 1] [0]), (OutputBias, Tensor [1] [7])]"
proof -
  have e: "snd (load_state_dict blank (state_dict pair)) =
     Some (RuntimeError (LoadingStateDict
       [SizeMismatch (HiddenWeight 0) [2, 1] [1, 1],
        SizeMismatch (HiddenBias 0) [2] [1],
        SizeMismatch OutputWeight [1, 2] [1, 1]]))"
    by (simp add: load_state_dict_def load_linear_def load_param_def state_dict_def
        parameter_names_def pair_def blank_def)
  show ?thesis
    using e failed_load_state_dict_effect [OF e]
    by (simp add: state_dict_def pair_def blank_def)
qed

text \<open>
  A state dict of widths \<open>[2]\<close> loaded into a network of widths \<open>[1]\<close>: the call raises,
  and the bias of the output layer, of shape \<open>[1]\<close> in both, has been overwritten.
\<close>

theorem failed_load_atomic_counterexample:
  "Network zeros 1 1 [1] = Inr blank \<and> Network sevens 1 1 [2] = Inr pair \<and>
   load_state_dict blank (state_dict pair) =
     (blank\<lparr>output_layer := (output_layer blank)\<lparr>bias := Tensor [1] [7]\<rparr>\<rparr>,
      Some (RuntimeError (LoadingStateDict
        [SizeMismatch (HiddenWeight 0) [2, 1] [1, 1],
         SizeMismatch (HiddenBias 0) [2] [1],
         SizeMismatch OutputWeight [1, 2] [1, 1]]))) \<and>
   bias (output_layer blank) = Tensor [1] [0]"
proof -
  have "load_state_dict blank (state_dict pair) =
     (blank\<lparr>output_layer := (output_layer blank)\<lparr>bias := Tensor [1] [7]\<rparr>\<rparr>,
      Some (RuntimeError (LoadingStateDict
        [SizeMismatch (HiddenWeight 0) [2, 1] [1, 1],
         SizeMismatch (HiddenBias 0) [2] [1],
         SizeMismatch OutputWeight [1, 2] [1, 1]])))"
    by (simp add: load_state_dict_def load_linear_def load_param_def state_dict_def
        parameter_names_def pair_def blank_def)
  moreover have "bias (output_layer blank) = Tensor [1] [0]"
    by (simp add: blank_def)
  ultimately show ?thesis using Network_blank Network_pair by simp
qed

subsection \<open>What is written to the checkpoint file\<close>

text \<open>
  Claim C3, as the code has it. The notebook writes \<^verbatim>\<open>checkpoint.pth\<close> twice. The first
  write stores the bare state dict of the model. The second write replaces it by a record
  of four fields: 784, 10, the hidden widths of the model and its state dict, which maps
  two names per hidden layer and two for the output layer, all distinct, to tensors.
  Neither write touches another file, and reading the file back gives the record.
\<close>

theorem checkpoint_file_writes:
  "save_state_dict model fs = fs(''checkpoint.pth'' \<mapsto> SavedStateDict (state_dict model)) \<and>
   save_checkpoint model' (save_state_dict model fs) =
     fs(''checkpoint.pth'' \<mapsto> SavedCheckpoint
          \<lparr>input_size = 784, output_size = 10,
           hidden_layers_ck = map out_features (hidden_layers model'),
           state_dict_ck = state_dict model'\<rparr>) \<and>
   torch_load ''checkpoint.pth'' (save_checkpoint model' (save_state_dict model fs)) =
     Inr (SavedCheckpoint (checkpoint_of model')) \<and>
   distinct (map fst (state_dict_ck (checkpoint_of model'))) \<and>
   length (state_dict_ck (checkpoint_of model')) =
     2 * length (hidden_layers_ck (checkpoint_of model')) + 2"
  by (simp add: save_state_dict_def save_checkpoint_def torch_save_def torch_load_def
      checkpoint_of_def distinct_state_dict)
    (simp add: state_dict_def length_hidden_items)

text \<open>What the first write leaves in the file: a state dict, not a record of four
  fields.\<close>

theorem checkpoint_file_writes_counterexample:
  "save_state_dict tiny no_files ''checkpoint.pth'' =
     Some (SavedStateDict
       [(HiddenWeight 0, Tensor [1, 1] [7]), (HiddenBias 0, Tensor [1] [7]),
        (OutputWeight, Tensor [1, 1] [7]), (OutputBias, Tensor [1] [7])])"
  by (simp add: save_state_dict_def torch_save_def state_dict_def tiny_def)

section \<open>Properties of training and validation\<close>

subsection \<open>Rounding to float32\<close>

text \<open>Numbers that float32 holds are rounded to themselves; among them are the fractions
  with a power of two up to \<open>2\<^sup>2\<^sup>4\<close> below the line. One third is not among them.\<close>

lemma round_half_even_of_int [simp]: "round_half_even (of_int z) = z"
  by (simp add: round_half_even_def)


lemma scale_up_reached:
  "scale_up fuel n x < n + fuel \<Longrightarrow> 2 ^ 23 \<le> \<bar>x\<bar> * 2 ^ scale_up fuel n x"
proof (induction fuel arbitrary: n)
  case 0
  then show ?case by simp
next
  case (Suc fuel)
  show ?case
  proof (cases "2 ^ 23 \<le> \<bar>x\<bar> * 2 ^ n")
    case True
    then show ?thesis by simp
  next
    case False
    then show ?thesis using Suc.IH [of "Suc n"] Suc.prems by simp
  qed
qed

lemma float32_exact:
  assumes "\<bar>x\<bar> < 2 ^ 24" and "x * 2 ^ scale_up 149 0 x = of_int z"
  shows "float32 x = x"
proof -
  have "of_int (round_half_even (x * 2 ^ scale_up 149 0 x)) / 2 ^ scale_up 149 0 x = x"
    unfolding assms(2) round_half_even_of_int
    by (simp flip: assms(2))
  then show ?thesis using assms(1) by (simp add: float32_def Let_def)
qed

lemma float32_of_int:
  assumes "\<bar>of_int z :: 'a::floor_ceiling\<bar> < 2 ^ 24"
  shows "float32 (of_int z :: 'a) = of_int z"
proof (rule float32_exact [OF assms])
  show "(of_int z :: 'a) * 2 ^ scale_up 149 0 (of_int z :: 'a) =
        of_int (z * 2 ^ scale_up 149 0 (of_int z :: 'a))"
    by simp
qed

lemma float32_0 [simp]: "float32 0 = 0"
  using float32_of_int [of 0] by simp

lemma float32_1 [simp]: "float32 1 = 1"
  using float32_of_int [of 1] by simp



lemma float32_half: "float32 (1 / 2 :: rat) = 1 / 2"
proof (rule float32_exact)
  show "\<bar>1 / 2 :: rat\<bar> < 2 ^ 24" by simp
  have "scale_up 149 0 (1 / 2 :: rat) = 24"
    by (simp add: eval_nat_numeral)
  then show "(1 / 2 :: rat) * 2 ^ scale_up 149 0 (1 / 2 :: rat) = of_int (2 ^ 23)"
    by simp
qed

lemma float32_third: "float32 (1 / 3 :: rat) = 11184811 / 33554432"
proof -
  have n: "scale_up 149 0 (1 / 3 :: rat) = 25"
    by (simp add: eval_nat_numeral)
  have fl: "\<lfloor>33554432 / 3 :: rat\<rfloor> = 11184810"
    by (simp add: floor_unique)
  show ?thesis
    by (simp add: float32_def Let_def n round_half_even_def fl)
qed

lemma float32_dyadic:
  fixes k j :: nat
  assumes "k \<le> 2 ^ j" and "j \<le> 24"
  shows "float32 (of_nat k / 2 ^ j :: rat) = of_nat k / 2 ^ j"
proof -
  let ?x = "of_nat k / 2 ^ j :: rat"
  let ?n = "scale_up 149 0 ?x"
  have k: "(of_nat k :: rat) \<le> 2 ^ j"
    using assms(1) by (metis of_nat_le_iff of_nat_numeral of_nat_power)
  have x0: "0 \<le> ?x" by simp
  have x1: "?x \<le> 1" using k by (simp add: divide_le_eq)
  have "(1::rat) < 2 ^ 24" by simp
  with x1 have "?x < 2 ^ 24" by (rule le_less_trans)
  then have small: "\<bar>?x\<bar> < 2 ^ 24" by (simp only: abs_of_nonneg [OF x0])
  have "\<exists>z. ?x * 2 ^ ?n = of_int z"
  proof (cases "j \<le> ?n")
    case True
    then have "(2::rat) ^ ?n = 2 ^ j * 2 ^ (?n - j)"
      by (simp flip: power_add)
    then have "?x * 2 ^ ?n = of_int (int k * 2 ^ (?n - j))"
      by simp
    then show ?thesis by blast
  next
    case False
    then have nj: "?n < j" by simp
    then have "?n < 0 + 149" using assms(2) by simp
    from scale_up_reached [OF this] have r: "2 ^ 23 \<le> ?x * 2 ^ ?n"
      using x0 by simp
    have "?x * 2 ^ ?n \<le> 1 * 2 ^ ?n"
      using x1 by (intro mult_right_mono) simp_all
    with r have "(2::rat) ^ 23 \<le> 1 * 2 ^ ?n" by (rule order_trans)
    then have p: "(2::rat) ^ 23 \<le> 2 ^ ?n" by (simp only: mult_1)
    have "23 \<le> ?n" by (rule power_le_imp_le_exp [OF _ p]) simp
    then have n: "?n = 23" and j: "j = 24" using nj assms(2) by simp_all
    have "(2::rat) ^ 23 \<le> of_nat k / 2 ^ 24 * 2 ^ 23"
      using r n j by simp
    then have "(2::rat) ^ 24 \<le> of_nat k" by simp
    then have "(of_nat k :: rat) = 2 ^ 24" using k j by simp
    then have "?x * 2 ^ ?n = of_int (2 ^ 23)"
      using n j by simp
    then show ?thesis by blast
  qed
  then obtain z where "?x * 2 ^ ?n = of_int z" by blast
  from float32_exact [OF small this] show ?thesis .
qed

subsection \<open>The training pass\<close>

lemma training_pass_state:
  "training_pass fw (images, labels) st =
     st\<lparr>parameters :=
          snd (update fw (optimizer st) (parameters st)
                 (autograd fw (training st) (parameters st) images labels)),
        grad := autograd fw (training st) (parameters st) images labels,
        optimizer :=
          fst (update fw (optimizer st) (parameters st)
                 (autograd fw (training st) (parameters st) images labels)),
        running_loss :=
          running_loss st +
          criterion fw (map (forward fw (training st) (parameters st)) images) labels,
        calls := calls st @ [ZeroGrad, Forward, Criterion, Backward, Step]\<rparr>"
  by (simp add: training_pass_def zero_grad_def call_model_def call_criterion_def backward_def
      optimizer_step_def Let_def split: prod.splits)

lemma train_batches_snoc:
  "train_batches fw (loader @ [batch]) st = training_pass fw batch (train_batches fw loader st)"
  by (induction loader arbitrary: st) simp_all

lemma calls_training_pass:
  "calls (training_pass fw batch st) = calls st @ [ZeroGrad, Forward, Criterion, Backward, Step]"
  by (cases batch) (simp add: training_pass_state)

lemma calls_train_batches:
  "calls (train_batches fw loader st) =
   calls st @ concat (replicate (length loader) [ZeroGrad, Forward, Criterion, Backward, Step])"
  by (induction loader arbitrary: st) (simp_all add: calls_training_pass)

text \<open>
  Claim C6. The loop over the loader is the body of the loop applied to the batches one
  after the other, and the body leaves the session in the state written out below: the
  parameters and the state of the optimizer are one update of those the batch started
  with, with the gradient of the loss of this batch alone, taken at the parameters the
  batch started with; \<^verbatim>\<open>.grad\<close> holds that gradient and nothing of earlier batches; the
  running loss has grown by the criterion of the output of the forward pass of this batch
  and its labels; the calls made are \<^verbatim>\<open>zero_grad\<close>, forward, criterion, \<^verbatim>\<open>backward\<close>, \<^verbatim>\<open>step\<close>,
  in this order and once each. The forward pass returns the output of the model at the
  parameters of that moment, the criterion the loss of the output it is given, and the
  four calls before the step leave the parameters as they are. The loop of the training
  notebook first flattens the images, which calls neither the model nor the optimizer.
\<close>

theorem training_pass_order:
  "train_batches fw [] st = st \<and>
   train_batches fw (loader @ [(images, labels)]) st =
     training_pass fw (images, labels) (train_batches fw loader st) \<and>
   training_pass fw (images, labels) st =
     st\<lparr>parameters :=
          snd (update fw (optimizer st) (parameters st)
                 (autograd fw (training st) (parameters st) images labels)),
        grad := autograd fw (training st) (parameters st) images labels,
        optimizer :=
          fst (update fw (optimizer st) (parameters st)
                 (autograd fw (training st) (parameters st) images labels)),
        running_loss :=
          running_loss st +
          criterion fw (map (forward fw (training st) (parameters st)) images) labels,
        calls := calls st @ [ZeroGrad, Forward, Criterion, Backward, Step]\<rparr> \<and>
   calls (train_batches fw loader st) =
     calls st @ concat (replicate (length loader) [ZeroGrad, Forward, Criterion, Backward, Step]) \<and>
   parameters (training_pass fw (images, labels) st) =
     snd (update fw (optimizer st) (parameters st)
            (autograd fw (training st) (parameters st) images labels)) \<and>
   optimizer (training_pass fw (images, labels) st) =
     fst (update fw (optimizer st) (parameters st)
            (autograd fw (training st) (parameters st) images labels)) \<and>
   item (fst (call_model fw images st)) =
     map (forward fw (training st) (parameters st)) images \<and>
   item (fst (call_criterion fw log_ps labels st)) = criterion fw (item log_ps) labels \<and>
   parameters (zero_grad st) = parameters st \<and>
   parameters (snd (call_model fw images st)) = parameters st \<and>
   parameters (snd (call_criterion fw log_ps labels st)) = parameters st \<and>
   parameters (backward fw loss st) = parameters st"
proof -
  have "parameters (backward fw loss st) = parameters st"
    by (simp add: backward_def split: prod.splits)
  then show ?thesis
    using calls_train_batches [of fw loader st] training_pass_state [of fw images labels st]
      train_batches_snoc [of fw loader "(images, labels)" st]
    by (simp add: zero_grad_def call_model_def call_criterion_def)
qed

subsection \<open>The validation pass changes no parameter\<close>

lemma validation_loop_parameters:
  "parameters (fst (validation_loop fw testloader st)) = parameters st"
  by (induction fw testloader st rule: validation_loop.induct)
    (auto simp: call_model_def split: sum.splits)

lemma validation_loop_grad:
  "grad (fst (validation_loop fw testloader st)) = grad st"
  by (induction fw testloader st rule: validation_loop.induct)
    (auto simp: call_model_def split: sum.splits)

lemma validation_loop_optimizer:
  "optimizer (fst (validation_loop fw testloader st)) = optimizer st"
  by (induction fw testloader st rule: validation_loop.induct)
    (auto simp: call_model_def split: sum.splits)

lemma validation_loop_calls:
  "\<exists>n. n \<le> length testloader \<and>
       calls (fst (validation_loop fw testloader st)) = calls st @ replicate n Forward"
proof (induction testloader arbitrary: st)
  case Nil
  then show ?case by simp
next
  case (Cons batch rest)
  obtain images labels where batch: "batch = (images, labels)"
    by (cases batch)
  let ?st1 = "st\<lparr>calls := calls st @ [Forward]\<rparr>"
  let ?ps = "map (map (torch_exp fw)) (map (forward fw (training st) (parameters st)) images)"
  show ?case
  proof (cases "batch_accuracy (top_index fw) ?ps labels")
    case (Inl e)
    then have "calls (fst (validation_loop fw (batch # rest) st)) = calls st @ replicate 1 Forward"
      by (simp add: batch call_model_def)
    moreover have "1 \<le> length (batch # rest)" by simp
    ultimately show ?thesis by blast
  next
    case (Inr a)
    let ?st2 = "?st1\<lparr>accuracy := Some a\<rparr>"
    have step: "validation_loop fw (batch # rest) st = validation_loop fw rest ?st2"
      using Inr by (simp add: batch call_model_def)
    obtain n where n: "n \<le> length rest"
      and c: "calls (fst (validation_loop fw rest ?st2)) = calls ?st2 @ replicate n Forward"
      using Cons.IH [of ?st2] by blast
    have "calls (fst (validation_loop fw (batch # rest) st)) = calls st @ replicate (Suc n) Forward"
      using c step by simp
    moreover have "Suc n \<le> length (batch # rest)" using n by simp
    ultimately show ?thesis by blast
  qed
qed

lemma print_accuracy_frame:
  "parameters (fst (print_accuracy st)) = parameters st"
  "grad (fst (print_accuracy st)) = grad st"
  "optimizer (fst (print_accuracy st)) = optimizer st"
  "calls (fst (print_accuracy st)) = calls st"
  by (simp_all add: print_accuracy_def split: option.splits)

lemma validation_pass_frame:
  "parameters (fst (validation_pass fw testloader st)) = parameters st"
  "grad (fst (validation_pass fw testloader st)) = grad st"
  "optimizer (fst (validation_pass fw testloader st)) = optimizer st"
  "calls (fst (validation_pass fw testloader st)) = calls (fst (validation_loop fw testloader st))"
proof -
  obtain st1 err where l: "validation_loop fw testloader st = (st1, err)"
    by (cases "validation_loop fw testloader st")
  have p: "parameters st1 = parameters st"
    using validation_loop_parameters [of fw testloader st] l by simp
  have g: "grad st1 = grad st"
    using validation_loop_grad [of fw testloader st] l by simp
  have o: "optimizer st1 = optimizer st"
    using validation_loop_optimizer [of fw testloader st] l by simp
  show "parameters (fst (validation_pass fw testloader st)) = parameters st"
    using p by (cases err) (simp_all add: validation_pass_def l print_accuracy_frame)
  show "grad (fst (validation_pass fw testloader st)) = grad st"
    using g by (cases err) (simp_all add: validation_pass_def l print_accuracy_frame)
  show "optimizer (fst (validation_pass fw testloader st)) = optimizer st"
    using o by (cases err) (simp_all add: validation_pass_def l print_accuracy_frame)
  show "calls (fst (validation_pass fw testloader st)) =
        calls (fst (validation_loop fw testloader st))"
    by (cases err) (simp_all add: validation_pass_def l print_accuracy_frame)
qed

text \<open>
  Claim C8. Whatever the model and the held-out batches, and whether or not the pass ends
  in an exception, both validation passes leave the parameters, their gradients and the
  state of the optimizer as they were; the calls they make are forward passes, after
  \<^verbatim>\<open>model.eval()\<close> in the loop with dropout, and never an optimizer step.
\<close>

theorem validation_keeps_parameters:
  "parameters (fst (validation_pass fw testloader st)) = parameters st \<and>
   grad (fst (validation_pass fw testloader st)) = grad st \<and>
   optimizer (fst (validation_pass fw testloader st)) = optimizer st \<and>
   (\<exists>n. n \<le> length testloader \<and>
        calls (fst (validation_pass fw testloader st)) = calls st @ replicate n Forward) \<and>
   parameters (fst (validation_pass_eval fw testloader st)) = parameters st \<and>
   grad (fst (validation_pass_eval fw testloader st)) = grad st \<and>
   optimizer (fst (validation_pass_eval fw testloader st)) = optimizer st \<and>
   (\<exists>n. n \<le> length testloader \<and>
        calls (fst (validation_pass_eval fw testloader st)) =
          calls st @ Eval # replicate n Forward)"
proof -
  have "\<exists>n. n \<le> length testloader \<and>
        calls (fst (validation_pass fw testloader st)) = calls st @ replicate n Forward"
    using validation_loop_calls [of testloader fw st] by (simp add: validation_pass_frame)
  moreover have "\<exists>n. n \<le> length testloader \<and>
        calls (fst (validation_pass_eval fw testloader st)) =
          calls st @ Eval # replicate n Forward"
    using validation_loop_calls [of testloader fw "model_eval st"]
    by (simp add: validation_pass_eval_def validation_pass_frame model_eval_def)
  ultimately show ?thesis
    by (simp add: validation_pass_frame validation_pass_eval_def model_eval_def)
qed

text \<open>So an epoch leaves the parameters as its training loop left them.\<close>

lemma epoch_parameters:
  "parameters (fst (epoch fw with_eval trainloader testloader st)) =
   parameters (train_batches fw trainloader (st\<lparr>running_loss := 0\<rparr>))"
  by (simp add: epoch_def Let_def validation_pass_frame validation_pass_eval_def model_eval_def)

subsection \<open>The accuracy of a batch\<close>

lemma first_highest_highest:
  "row \<noteq> [] \<Longrightarrow>
   first_highest row < length row \<and> (\<forall>c<length row. row ! c \<le> row ! first_highest row)"
proof (induction row rule: first_highest.induct)
  case 1
  then show ?case by simp
next
  case (2 x)
  then show ?case by simp
next
  case (3 x y ys)
  let ?i = "first_highest (y # ys)"
  have i: "?i < length (y # ys)" and hi: "\<forall>c<length (y # ys). (y # ys) ! c \<le> (y # ys) ! ?i"
    using "3.IH" by simp_all
  show ?case
  proof (cases "(y # ys) ! ?i \<le> x")
    case True
    have "(x # y # ys) ! c \<le> x" if "c < length (x # y # ys)" for c
    proof (cases c)
      case 0
      then show ?thesis by simp
    next
      case (Suc c')
      then have "(y # ys) ! c' \<le> (y # ys) ! ?i" using hi that by simp
      then show ?thesis using True Suc by simp
    qed
    then show ?thesis using True by (simp add: Let_def)
  next
    case False
    have "(x # y # ys) ! c \<le> (y # ys) ! ?i" if "c < length (x # y # ys)" for c
    proof (cases c)
      case 0
      then show ?thesis using False by simp
    next
      case (Suc c')
      then show ?thesis using hi that by simp
    qed
    then show ?thesis using False i by (simp add: Let_def)
  qed
qed

lemma topk_rows:
  "[] \<notin> set ps \<Longrightarrow> topk pick ps = Inr (map (\<lambda>row. (row ! pick row, pick row)) ps)"
  by (induction ps) auto

lemma sum_float_of_bool:
  "sum_list (map float_of_bool (map (\<lambda>(c, l). c = l) zs)) =
   of_nat (length (filter (\<lambda>(c, l). c = l) zs))"
  by (induction zs) (auto simp: float_of_bool_def)

lemma correct_count:
  assumes "length cs = length ls"
  shows "length (filter (\<lambda>(c, l). c = l) (zip cs ls)) = card {n. n < length cs \<and> cs ! n = ls ! n}"
proof -
  have "{i. i < length (zip cs ls) \<and> (\<lambda>(c, l). c = l) (zip cs ls ! i)} =
        {n. n < length cs \<and> cs ! n = ls ! n}"
    using assms by auto
  then show ?thesis
    by (simp only: length_filter_conv_card)
qed

lemma batch_accuracy_value:
  assumes "length labels = length ps" and "ps \<noteq> []" and "[] \<notin> set ps"
  shows "batch_accuracy pick ps labels =
         Inr (Value (float32 (of_nat (card {n. n < length ps \<and> pick (ps ! n) = labels ! n}) /
                              of_nat (length ps))))"
proof -
  let ?top_class = "map pick ps"
  have t: "map snd (map (\<lambda>row. (row ! pick row, pick row)) ps) = ?top_class"
    by simp
  have l: "length ?top_class = length labels"
    using assms(1) by simp
  have ne: "zip ?top_class labels \<noteq> []"
    using assms(1,2) by (cases ps; cases labels) simp_all
  have "{n. n < length ?top_class \<and> ?top_class ! n = labels ! n} =
        {n. n < length ps \<and> pick (ps ! n) = labels ! n}"
    by auto
  then have "sum_list (map float_of_bool (map2 (\<lambda>c l. c = l) ?top_class labels)) =
        of_nat (card {n. n < length ps \<and> pick (ps ! n) = labels ! n})"
    using sum_float_of_bool [of "zip ?top_class labels"] correct_count [OF l] by simp
  moreover have "length (map2 (\<lambda>c l. c = l) ?top_class labels) = length ps"
    using l by simp
  ultimately show ?thesis
    using l ne
    by (simp add: batch_accuracy_def topk_rows [OF assms(3)] t mean_def Let_def del: map_map)
qed

text \<open>
  Claim C7. Take a batch with as many labels as rows of class probabilities, at least one
  row and at most \<open>2\<^sup>2\<^sup>4\<close> rows, and a \<^verbatim>\<open>topk\<close> that returns for every row the index of a
  highest probability of the row, whichever one it is when several are highest. The
  accuracy computed for the batch is the float32 number nearest to the number of rows whose
  index equals the label, divided by the number of rows. When the number of rows is a
  power of two, as the 64 of the loader and the 16 of its last batch are, the accuracy is
  that fraction itself.
\<close>

theorem batch_accuracy_fraction:
  fixes ps :: "'v::linorder list list"
  assumes "length labels = length ps" and "ps \<noteq> []" and "length ps \<le> 2 ^ 24"
    and "list_all (\<lambda>row. pick row < length row \<and> list_all (\<lambda>v. v \<le> row ! pick row) row) ps"
  shows "batch_accuracy pick ps labels =
           Inr (Value (float32 (of_nat (card {n. n < length ps \<and> pick (ps ! n) = labels ! n}) /
                                of_nat (length ps)))) \<and>
         ((\<exists>j. length ps = 2 ^ j) \<longrightarrow>
          batch_accuracy pick ps labels =
            Inr (Value (of_nat (card {n. n < length ps \<and> pick (ps ! n) = labels ! n}) /
                        of_nat (length ps))))"
proof -
  let ?k = "card {n. n < length ps \<and> pick (ps ! n) = labels ! n}"
  have rows: "[] \<notin> set ps"
    using assms(4) by (auto simp: list_all_iff)
  note v = batch_accuracy_value [OF assms(1,2) rows, of pick]
  have "float32 (of_nat ?k / of_nat (length ps) :: rat) = of_nat ?k / of_nat (length ps)"
    if "length ps = 2 ^ j" for j
  proof -
    have "?k \<le> card {n. n < length ps}"
      by (intro card_mono) auto
    then have k: "?k \<le> 2 ^ j" using that by simp
    have "(2::nat) ^ j \<le> 2 ^ 24" using assms(3) that by simp
    then have j: "j \<le> 24" by (rule power_le_imp_le_exp [rotated]) simp
    show ?thesis using float32_dyadic [OF k j] that by simp
  qed
  then show ?thesis using v by auto
qed

text \<open>Two rows, the labels 1 and 1: the first row is predicted correctly, and the
  accuracy is one half.\<close>

theorem batch_accuracy_fraction_witness:
  "length [1, 1 :: nat] = length quarters \<and> quarters \<noteq> [] \<and> length quarters \<le> 2 ^ 24 \<and>
   list_all (\<lambda>row. first_highest row < length row \<and>
                    list_all (\<lambda>v. v \<le> row ! first_highest row) row) quarters \<and>
   length quarters = 2 ^ 1 \<and>
   batch_accuracy first_highest quarters [1, 1] =
     Inr (Value (float32 (of_nat (card {n. n < length quarters \<and>
                                        first_highest (quarters ! n) = [1, 1] ! n}) /
                          of_nat (length quarters)))) \<and>
   batch_accuracy first_highest quarters [1, 1] =
     Inr (Value (of_nat (card {n. n < length quarters \<and>
                               first_highest (quarters ! n) = [1, 1] ! n}) /
                 of_nat (length quarters))) \<and>
   batch_accuracy first_highest quarters [1, 1] = Inr (Value (1 / 2))"
proof -
  have a: "length [1, 1 :: nat] = length quarters" by (simp add: quarters_def)
  have b: "quarters \<noteq> []" by (simp add: quarters_def)
  have c: "length quarters \<le> 2 ^ 24" by (simp add: quarters_def)
  have d: "list_all (\<lambda>row. first_highest row < length row \<and>
                    list_all (\<lambda>v. v \<le> row ! first_highest row) row) quarters"
    by (simp add: quarters_def)
  have e: "length quarters = 2 ^ 1" by (simp add: quarters_def)
  then have f: "\<exists>j. length quarters = 2 ^ j" by (rule exI)
  have g: "batch_accuracy first_highest quarters [1, 1] = Inr (Value (1 / 2))"
    by (simp add: batch_accuracy_def quarters_def mean_def float_of_bool_def float32_half)
  show ?thesis
    using a b c d e f g batch_accuracy_fraction [OF a b c d] by blast
qed

text \<open>
  Three rows, the labels 1, 1 and 1: the first row alone is predicted correctly, so the
  fraction is one third. The accuracy computed is the float32 number nearest to it,
  \<open>11184811 / 2\<^sup>2\<^sup>5\<close>, which is more than one third.
\<close>

theorem batch_accuracy_fraction_counterexample:
  "length [1, 1, 1 :: nat] = length thirds \<and>
   map first_highest thirds = [1, 0, 0] \<and>
   batch_accuracy first_highest thirds [1, 1, 1] = Inr (Value (11184811 / 33554432)) \<and>
   batch_accuracy first_highest thirds [1, 1, 1] \<noteq> Inr (Value (1 / 3))"
  by (simp add: batch_accuracy_def thirds_def mean_def float_of_bool_def float32_third)

subsection \<open>The accuracy the validation loop reports\<close>

text \<open>
  Claim C4 against the code. Each batch of the validation loop assigns \<^verbatim>\<open>accuracy\<close>, and
  the \<^verbatim>\<open>print\<close> after the loop shows what the last batch left there. The model gives
  image 0 the probabilities \<open>3/4\<close> and \<open>1/4\<close> and image 1 the probabilities \<open>1/4\<close> and
  \<open>3/4\<close>; both images have label 1. With one batch for each image, both loops print 100,
  while one of the two held-out examples is predicted correctly.
\<close>

theorem validation_reports_last_batch:
  "validation_pass guess two_batches fresh_session =
     (fresh_session\<lparr>accuracy := Some (Value 1), printed := [Value 100],
        calls := [Forward, Forward]\<rparr>, None) \<and>
   printed (fst (validation_pass_eval guess two_batches fresh_session)) = [Value 100] \<and>
   batch_accuracy first_highest [[3 / 4, 1 / 4], [1 / 4, 3 / 4 :: real]] [1, 1] =
     Inr (Value (1 / 2))"
  by (simp add: validation_pass_def validation_pass_eval_def model_eval_def call_model_def
      batch_accuracy_def mean_def float_of_bool_def print_accuracy_def times100_def guess_def
      two_batches_def fresh_session_def float32_half)

text \<open>For every loader: when the loop ends without an exception, \<^verbatim>\<open>accuracy\<close> is the
  accuracy of the last batch.\<close>

lemma validation_loop_last:
  assumes "validation_loop fw (batches @ [(images, labels)]) st = (st', None)"
  shows "\<exists>a. batch_accuracy (top_index fw)
               (map (map (torch_exp fw)) (map (forward fw (training st) (parameters st)) images))
               labels = Inr a \<and>
             accuracy st' = Some a"
  using assms
proof (induction batches arbitrary: st)
  case Nil
  then show ?case by (auto simp: call_model_def split: sum.splits)
next
  case (Cons batch batches)
  obtain images' labels' where batch: "batch = (images', labels')"
    by (cases batch)
  let ?st1 = "st\<lparr>calls := calls st @ [Forward]\<rparr>"
  let ?ps = "map (map (torch_exp fw)) (map (forward fw (training st) (parameters st)) images')"
  show ?case
  proof (cases "batch_accuracy (top_index fw) ?ps labels'")
    case (Inl e)
    then show ?thesis using Cons.prems by (simp add: batch call_model_def)
  next
    case (Inr a)
    let ?st2 = "?st1\<lparr>accuracy := Some a\<rparr>"
    have "validation_loop fw (batches @ [(images, labels)]) ?st2 = (st', None)"
      using Cons.prems Inr by (simp add: batch call_model_def)
    from Cons.IH [OF this] show ?thesis by simp
  qed
qed

section \<open>Properties of the classifier\<close>

subsection \<open>The shape of the output and its rows\<close>




lemma length_log_softmax [simp]: "length (log_softmax ar row) = length row"
  by (simp add: log_softmax_def Let_def split: list.splits)

lemma Classifier_layers [simp]:
  "in_features (fc1 (Classifier init)) = 784" "out_features (fc1 (Classifier init)) = 256"
  "in_features (fc2 (Classifier init)) = 256" "out_features (fc2 (Classifier init)) = 128"
  "in_features (fc3 (Classifier init)) = 128" "out_features (fc3 (Classifier init)) = 64"
  "in_features (fc4 (Classifier init)) = 64" "out_features (fc4 (Classifier init)) = 10"
  by (simp_all add: Classifier_def Linear_def)




subsection \<open>One black image\<close>


















end
